theory Spec2Isabelle
  imports Complex_Main "HOL-Library.Multiset"
begin

section \<open>Strings and identifiers\<close>

text \<open>
  A JavaScript string is modelled as a \<open>string\<close>: a list of code units below 256,
  so \<open>length\<close> is the \<open>.length\<close> of the source for such strings.
  \<open>String.prototype.trim\<close> removes white space and line terminators from both
  ends; below 256 these are TAB, LF, VT, FF, CR, SPACE and NBSP.
\<close>

definition isWhiteSpace :: "char \<Rightarrow> bool" where
  "isWhiteSpace c =
     (c \<in> set [CHR 0x09, CHR 0x0A, CHR 0x0B, CHR 0x0C, CHR 0x0D, CHR 0x20, CHR 0xA0])"

definition trim :: "string \<Rightarrow> string" where
  "trim s = rev (dropWhile isWhiteSpace (rev (dropWhile isWhiteSpace s)))"

text \<open>
  The routes test an id with \<^verbatim>\<open>issueId.match(/^[0-9a-fA-F]{24}$/)\<close>: exactly 24
  characters, each a hexadecimal digit of either case.
\<close>

definition isHexDigit :: "char \<Rightarrow> bool" where
  "isHexDigit c = (c \<in> set ''0123456789abcdefABCDEF'')"

definition isObjectIdFormat :: "string \<Rightarrow> bool" where
  "isObjectIdFormat s = (length s = 24 \<and> list_all isHexDigit s)"

text \<open>
  The lowercase form the spec asks for, following the spec's words
  "24-character lowercase hexadecimal strings"; the code never tests it.
\<close>

definition isLowerHexDigit :: "char \<Rightarrow> bool" where
  "isLowerHexDigit c = (c \<in> set ''0123456789abcdef'')"

definition isLowercaseObjectId :: "string \<Rightarrow> bool" where
  "isLowercaseObjectId s = (length s = 24 \<and> list_all isLowerHexDigit s)"

text \<open>
  An ObjectId is twelve bytes, written as 24 lowercase hexadecimal digits. The store
  keeps every id in that form. Mongoose casts a string of 24 hexadecimal digits of
  either case to the ObjectId it spells and raises a CastError for a string that is
  no ObjectId; \<open>castObjectId\<close> is that cast for the strings the routes can hand it
  (the driver's 12-byte reading of a 12-character string is left out: no theorem
  below rests on the cast of a string of that length).
\<close>

definition toLowerHex :: "char \<Rightarrow> char" where
  "toLowerHex c = (case map_of (zip ''ABCDEF'' ''abcdef'') c of Some d \<Rightarrow> d | None \<Rightarrow> c)"

definition castObjectId :: "string \<Rightarrow> string option" where
  "castObjectId s = (if isObjectIdFormat s then Some (map toLowerHex s) else None)"


section \<open>Documents and the database\<close>

text \<open>
  An issue document as both Issue schemas store it. \<open>description\<close> and \<open>assignee\<close>
  are absent (\<open>None\<close>) in a document the legacy schema created without them; the
  final schema defaults both to the empty string. Dates are milliseconds.
\<close>

record issue =
  i_id :: string
  title :: string
  description :: "string option"
  status :: string
  priority :: string
  assignee :: "string option"
  author :: string
  createdAt :: int
  updatedAt :: int

text \<open>
  Modelled from the spec: the User model (models/User.js) is not among the sources.
  Of a user only the fields that \<^verbatim>\<open>populate('author', 'name email')\<close> reads are kept.
\<close>

record user =
  u_id :: string
  u_name :: string
  u_email :: string

text \<open>
  Modelled from the spec: the Comment model (models/Comment.js) is not among the
  sources. The spec gives a comment an id, a content (required, non-empty after
  trimming), an author, an issue and a creation date.
\<close>

record comment =
  c_id :: string
  content :: string
  c_author :: string
  c_issue :: string
  c_createdAt :: int

record database =
  users :: "user list"
  issues :: "issue list"
  comments :: "comment list"

text \<open>
  What a request reads from outside the database: the clock, the ObjectId the driver
  generates for a new document, and whether NODE_ENV is 'development'.
\<close>

record env =
  now :: int
  newId :: string
  development :: bool

text \<open>
  \<^verbatim>\<open>req.body\<close> of POST / and PUT /:id, restricted to the paths of the schema (strict
  mode drops every other key) holding strings; \<open>None\<close> is an absent key.
\<close>

record issue_fields =
  f_title :: "string option"
  f_description :: "string option"
  f_status :: "string option"
  f_priority :: "string option"
  f_assignee :: "string option"
  f_author :: "string option"


section \<open>Errors and responses\<close>

datatype field_error =
    TitleRequired
  | TitleTooLong
  | TitleTooShort
  | DescriptionTooLong
  | StatusNotInEnum
  | PriorityNotInEnum
  | AssigneeTooLong
  | StatusRequired
  | PriorityRequired
  | AuthorRequired
  | AuthorCastFailed
  | IssueCastFailed
  | ContentRequired

text \<open>
  What a Mongoose call can throw here: a ValidationError with one error for each
  failing path, a CastError for a query or an update whose value is no ObjectId,
  and the server's duplicate key error for an \<open>_id\<close> already in the collection.
  A lost connection or any other failure of the database itself is not modelled.
\<close>

datatype mongoose_error =
    ValidationError "field_error list"
  | CastError
  | DuplicateKey

text \<open>The calls a handler makes on the storage layer, in order.\<close>

datatype db_call =
    Q_Issue_find
  | Q_Issue_findById string
  | Q_Issue_countDocuments
  | Q_Issue_create
  | Q_Issue_findByIdAndUpdate string
  | Q_Issue_findByIdAndDelete string
  | Q_Comment_find string
  | Q_Comment_countDocuments string
  | Q_Comment_create
  | Q_Comment_findById string
  | Q_Comment_deleteMany string

datatype rate = Number int | Text string

record stats =
  total :: nat
  "open" :: nat
  inProgress :: nat
  resolved :: nat
  closed :: nat
  solved :: nat
  ongoing :: nat
  completionRate :: "rate option"

text \<open>
  The JSON bodies. \<open>Issues\<close> and \<open>Comments\<close> are
  \<^verbatim>\<open>{ success: true, count, data }\<close> (the legacy routes send no count),
  \<open>IssueData\<close> and \<open>CommentData\<close> are \<^verbatim>\<open>{ success: true, message, data }\<close> (the
  message where the route sends one; \<open>data\<close> is null when the document read back
  is), \<open>Message\<close> is \<^verbatim>\<open>{ success: true, message }\<close>, \<open>Failure\<close> is
  \<^verbatim>\<open>{ success: false, message }\<close>, \<open>ValidationFailure\<close> is
  \<^verbatim>\<open>{ success: false, message: "Validation failed", errors }\<close>, \<open>ServerFailure\<close> is
  the body of a 500 of the final routes, and \<open>Thrown\<close> is
  \<^verbatim>\<open>{ success: false, message: error.message }\<close> of the legacy routes.

  A populated author is the user's \<open>_id\<close>, name and email, or null when no user
  has the id. \<open>v_commentCount\<close> and the two virtuals are the keys a handler adds
  to the document; a handler that adds none leaves them \<open>None\<close>.
\<close>

datatype author_ref = Populated "user option" | Unpopulated string

record issue_view =
  v_issue :: issue
  v_author :: author_ref
  v_commentCount :: "nat option"
  v_ageInDays :: "int option"
  v_isOverdue :: "bool option"

record comment_view =
  v_comment :: comment
  v_commenter :: "user option"

datatype body =
    Issues "nat option" "issue_view list"
  | Statistics stats
  | IssueData "string option" "issue_view option"
  | Comments "nat option" "comment_view list"
  | CommentData "string option" "comment_view option"
  | Message string
  | Failure string
  | ValidationFailure "field_error list"
  | ServerFailure string "mongoose_error option"
  | Thrown mongoose_error

record result =
  r_status :: nat
  r_body :: body
  r_db :: database
  r_calls :: "db_call list"

definition respond :: "nat \<Rightarrow> body \<Rightarrow> database \<Rightarrow> db_call list \<Rightarrow> result" where
  "respond st b db cs = \<lparr>r_status = st, r_body = b, r_db = db, r_calls = cs\<rparr>"

text \<open>
  The catch block of the final routes: 500 with a fixed message, and the error's own
  message only in development.
\<close>

definition serverError :: "env \<Rightarrow> string \<Rightarrow> mongoose_error \<Rightarrow> database \<Rightarrow> db_call list \<Rightarrow> result" where
  "serverError e msg err db cs =
     respond 500 (ServerFailure msg (if development e then Some err else None)) db cs"


section \<open>The two Issue schemas\<close>

text \<open>
  The options in which the two schema objects can differ. Both schemas trim
  \<open>title\<close>, \<open>description\<close> and \<open>assignee\<close>, require \<open>title\<close> and \<open>author\<close>, and
  restrict \<open>status\<close> and \<open>priority\<close> to an enum with a default. \<open>virtuals\<close> says
  whether the schema defines \<open>ageInDays\<close> and \<open>isOverdue\<close> and serialises them.
\<close>

record issue_schema =
  title_maxlength :: "nat option"
  title_minlength :: "nat option"
  description_maxlength :: "nat option"
  description_default :: "string option"
  status_enum :: "string list"
  status_default :: string
  status_required :: bool
  priority_enum :: "string list"
  priority_default :: string
  priority_required :: bool
  assignee_maxlength :: "nat option"
  assignee_default :: "string option"
  virtuals :: bool
  pre_save_hook :: bool

text \<open>models/Issue-final.js\<close>

definition IssueSchema_final :: issue_schema where
  "IssueSchema_final =
     \<lparr>title_maxlength = Some 200, title_minlength = Some 3,
      description_maxlength = Some 2000, description_default = Some [],
      status_enum = [''Open'', ''In Progress'', ''Resolved'', ''Closed''],
      status_default = ''Open'', status_required = True,
      priority_enum = [''Low'', ''Medium'', ''High'', ''Urgent''],
      priority_default = ''Low'', priority_required = True,
      assignee_maxlength = Some 100, assignee_default = Some [],
      virtuals = True, pre_save_hook = True\<rparr>"

text \<open>The legacy schema (src/unnamed/part\_002): no length bounds, no string defaults.\<close>

definition IssueSchema_legacy :: issue_schema where
  "IssueSchema_legacy =
     \<lparr>title_maxlength = None, title_minlength = None,
      description_maxlength = None, description_default = None,
      status_enum = [''Open'', ''In Progress'', ''Resolved'', ''Closed''],
      status_default = ''Open'', status_required = False,
      priority_enum = [''Low'', ''Medium'', ''High'', ''Urgent''],
      priority_default = ''Low'', priority_required = False,
      assignee_maxlength = None, assignee_default = None,
      virtuals = False, pre_save_hook = False\<rparr>"

subsection \<open>Validators\<close>

text \<open>
  Mongoose validates the value a path holds after its setters ran, so a trimmed
  string. A path reports its first failing validator only; \<open>required\<close> comes
  first, then the validators in the order the schema lists them. A required string
  fails when it is absent or empty.
\<close>

definition exceeds :: "nat option \<Rightarrow> string \<Rightarrow> bool" where
  "exceeds bound s = (case bound of None \<Rightarrow> False | Some n \<Rightarrow> n < length s)"

definition falls_short :: "nat option \<Rightarrow> string \<Rightarrow> bool" where
  "falls_short bound s = (case bound of None \<Rightarrow> False | Some n \<Rightarrow> length s < n)"

definition validate_title :: "issue_schema \<Rightarrow> string option \<Rightarrow> field_error list" where
  "validate_title sch v =
     (case v of
        None \<Rightarrow> [TitleRequired]
      | Some s \<Rightarrow>
          if s = [] then [TitleRequired]
          else if exceeds (title_maxlength sch) s then [TitleTooLong]
          else if falls_short (title_minlength sch) s then [TitleTooShort]
          else [])"

definition validate_description :: "issue_schema \<Rightarrow> string option \<Rightarrow> field_error list" where
  "validate_description sch v =
     (case v of
        None \<Rightarrow> []
      | Some s \<Rightarrow> if exceeds (description_maxlength sch) s then [DescriptionTooLong] else [])"

definition validate_status :: "issue_schema \<Rightarrow> string \<Rightarrow> field_error list" where
  "validate_status sch s =
     (if status_required sch \<and> s = [] then [StatusRequired]
      else if s \<notin> set (status_enum sch) then [StatusNotInEnum]
      else [])"

definition validate_priority :: "issue_schema \<Rightarrow> string \<Rightarrow> field_error list" where
  "validate_priority sch s =
     (if priority_required sch \<and> s = [] then [PriorityRequired]
      else if s \<notin> set (priority_enum sch) then [PriorityNotInEnum]
      else [])"

definition validate_assignee :: "issue_schema \<Rightarrow> string option \<Rightarrow> field_error list" where
  "validate_assignee sch v =
     (case v of
        None \<Rightarrow> []
      | Some s \<Rightarrow> if exceeds (assignee_maxlength sch) s then [AssigneeTooLong] else [])"

text \<open>
  In a document an author that is no ObjectId is a cast error of the path, reported
  inside the ValidationError; a missing author fails \<open>required\<close>.
\<close>

definition validate_author :: "string option \<Rightarrow> field_error list" where
  "validate_author v =
     (case v of
        None \<Rightarrow> [AuthorRequired]
      | Some a \<Rightarrow> if castObjectId a = None then [AuthorCastFailed] else [])"


section \<open>The Mongoose model calls\<close>

text \<open>
  \<open>findOneAndUpdate\<close> and \<open>findOneAndDelete\<close> touch the first matching document
  only. \<^verbatim>\<open>.sort({ createdAt: -1 })\<close> puts the newest document first; documents of
  the same date stay in collection order (MongoDB leaves their order open).
\<close>

fun updateFirst :: "('a \<Rightarrow> bool) \<Rightarrow> ('a \<Rightarrow> 'a) \<Rightarrow> 'a list \<Rightarrow> 'a list" where
  "updateFirst P f [] = []"
| "updateFirst P f (x # xs) = (if P x then f x # xs else x # updateFirst P f xs)"

fun deleteFirst :: "('a \<Rightarrow> bool) \<Rightarrow> 'a list \<Rightarrow> 'a list" where
  "deleteFirst P [] = []"
| "deleteFirst P (x # xs) = (if P x then xs else x # deleteFirst P xs)"

definition newestFirst :: "('a \<Rightarrow> int) \<Rightarrow> 'a list \<Rightarrow> 'a list" where
  "newestFirst date xs = sort_key (\<lambda>x. - date x) xs"

subsection \<open>Issue\<close>

definition Issue_findById :: "database \<Rightarrow> string \<Rightarrow> mongoose_error + issue option" where
  "Issue_findById db k =
     (case castObjectId k of
        None \<Rightarrow> Inl CastError
      | Some k' \<Rightarrow> Inr (find (\<lambda>i. i_id i = k') (issues db)))"

text \<open>
  \<^verbatim>\<open>Issue.find(filter).sort({ createdAt: -1 })\<close>, the filter being empty or
  \<^verbatim>\<open>{ author: id }\<close>.
\<close>

definition Issue_find :: "database \<Rightarrow> string option \<Rightarrow> mongoose_error + issue list" where
  "Issue_find db a =
     (case a of
        None \<Rightarrow> Inr (newestFirst createdAt (issues db))
      | Some x \<Rightarrow>
          (case castObjectId x of
             None \<Rightarrow> Inl CastError
           | Some x' \<Rightarrow> Inr (newestFirst createdAt (filter (\<lambda>i. author i = x') (issues db)))))"

text \<open>\<^verbatim>\<open>Issue.countDocuments({ author: id })\<close> and \<^verbatim>\<open>({ author: id, status: s })\<close>.\<close>

definition Issue_countDocuments :: "database \<Rightarrow> string \<Rightarrow> string option \<Rightarrow> mongoose_error + nat" where
  "Issue_countDocuments db a s =
     (case castObjectId a of
        None \<Rightarrow> Inl CastError
      | Some a' \<Rightarrow>
          Inr (length (filter (\<lambda>i. author i = a' \<and> (case s of None \<Rightarrow> True | Some y \<Rightarrow> status i = y))
                 (issues db))))"

text \<open>
  \<^verbatim>\<open>Issue.create(data)\<close>: the setters trim, the defaults fill what is absent, the
  document is validated, the pre-save hook of the final schema trims title and
  assignee once more, both timestamps are set to the clock, and the server refuses
  an \<open>_id\<close> it already holds.
\<close>

definition preSave :: "issue \<Rightarrow> issue" where
  "preSave i =
     i\<lparr>title := (if title i \<noteq> [] then trim (title i) else title i),
       assignee := (case assignee i of
                      None \<Rightarrow> None
                    | Some a \<Rightarrow> if a \<noteq> [] then Some (trim a) else Some a)\<rparr>"

definition Issue_create ::
  "issue_schema \<Rightarrow> env \<Rightarrow> database \<Rightarrow> issue_fields \<Rightarrow> mongoose_error + issue \<times> database" where
  "Issue_create sch e db f =
     (let t = map_option trim (f_title f);
          d = (case f_description f of None \<Rightarrow> description_default sch | Some x \<Rightarrow> Some (trim x));
          s = (case f_status f of None \<Rightarrow> status_default sch | Some x \<Rightarrow> x);
          p = (case f_priority f of None \<Rightarrow> priority_default sch | Some x \<Rightarrow> x);
          g = (case f_assignee f of None \<Rightarrow> assignee_default sch | Some x \<Rightarrow> Some (trim x));
          a = (case f_author f of None \<Rightarrow> None | Some x \<Rightarrow> castObjectId x);
          errs = validate_title sch t @ validate_description sch d @ validate_status sch s
                 @ validate_priority sch p @ validate_assignee sch g @ validate_author (f_author f)
      in case (errs, t, a) of
           ([], Some t', Some a') \<Rightarrow>
             (let i = (if pre_save_hook sch then preSave else id)
                        \<lparr>i_id = newId e, title = t', description = d, status = s, priority = p,
                         assignee = g, author = a', createdAt = now e, updatedAt = now e\<rparr>
              in if newId e \<in> set (map i_id (issues db)) then Inl DuplicateKey
                 else Inr (i, db\<lparr>issues := issues db @ [i]\<rparr>))
         | _ \<Rightarrow> Inl (ValidationError errs))"

text \<open>
  \<^verbatim>\<open>Issue.findByIdAndUpdate(id, body, { new: true, runValidators: true })\<close>: the id
  and the body are cast (the setters trim; an author that is no ObjectId throws a
  CastError), the update validators run on the paths the body sets, and the first
  document with the id gets those paths and a new \<open>updatedAt\<close>. The result is the
  updated document, or null when no document has the id.
\<close>

definition castUpdate :: "issue_fields \<Rightarrow> mongoose_error + issue_fields" where
  "castUpdate f =
     (case f_author f of
        None \<Rightarrow>
          Inr (f\<lparr>f_title := map_option trim (f_title f),
                 f_description := map_option trim (f_description f),
                 f_assignee := map_option trim (f_assignee f)\<rparr>)
      | Some x \<Rightarrow>
          (case castObjectId x of
             None \<Rightarrow> Inl CastError
           | Some a \<Rightarrow>
               Inr (f\<lparr>f_title := map_option trim (f_title f),
                      f_description := map_option trim (f_description f),
                      f_assignee := map_option trim (f_assignee f),
                      f_author := Some a\<rparr>)))"

definition updateValidators :: "issue_schema \<Rightarrow> issue_fields \<Rightarrow> field_error list" where
  "updateValidators sch f =
     (case f_title f of None \<Rightarrow> [] | Some t \<Rightarrow> validate_title sch (Some t))
     @ validate_description sch (f_description f)
     @ (case f_status f of None \<Rightarrow> [] | Some s \<Rightarrow> validate_status sch s)
     @ (case f_priority f of None \<Rightarrow> [] | Some p \<Rightarrow> validate_priority sch p)
     @ validate_assignee sch (f_assignee f)"

definition applyUpdate :: "issue_fields \<Rightarrow> int \<Rightarrow> issue \<Rightarrow> issue" where
  "applyUpdate f t i =
     i\<lparr>title := (case f_title f of None \<Rightarrow> title i | Some x \<Rightarrow> x),
       description := (case f_description f of None \<Rightarrow> description i | Some x \<Rightarrow> Some x),
       status := (case f_status f of None \<Rightarrow> status i | Some x \<Rightarrow> x),
       priority := (case f_priority f of None \<Rightarrow> priority i | Some x \<Rightarrow> x),
       assignee := (case f_assignee f of None \<Rightarrow> assignee i | Some x \<Rightarrow> Some x),
       author := (case f_author f of None \<Rightarrow> author i | Some x \<Rightarrow> x),
       updatedAt := t\<rparr>"

definition Issue_findByIdAndUpdate ::
  "issue_schema \<Rightarrow> env \<Rightarrow> database \<Rightarrow> string \<Rightarrow> issue_fields
     \<Rightarrow> mongoose_error + issue option \<times> database" where
  "Issue_findByIdAndUpdate sch e db k f =
     (case castObjectId k of
        None \<Rightarrow> Inl CastError
      | Some k' \<Rightarrow>
          (case castUpdate f of
             Inl err \<Rightarrow> Inl err
           | Inr f' \<Rightarrow>
               if updateValidators sch f' \<noteq> [] then Inl (ValidationError (updateValidators sch f'))
               else
                 (let db' = db\<lparr>issues := updateFirst (\<lambda>i. i_id i = k') (applyUpdate f' (now e)) (issues db)\<rparr>
                  in Inr (find (\<lambda>i. i_id i = k') (issues db'), db'))))"

definition Issue_findByIdAndDelete :: "database \<Rightarrow> string \<Rightarrow> mongoose_error + database" where
  "Issue_findByIdAndDelete db k =
     (case castObjectId k of
        None \<Rightarrow> Inl CastError
      | Some k' \<Rightarrow> Inr (db\<lparr>issues := deleteFirst (\<lambda>i. i_id i = k') (issues db)\<rparr>))"

subsection \<open>Comment\<close>

text \<open>
  Modelled from the spec: models/Comment.js is not among the sources. The calls follow
  the spec's Comment: \<open>content\<close> is a required string, trimmed; \<open>author\<close> and \<open>issue\<close>
  are required ObjectIds; \<open>createdAt\<close> is the clock at creation.
\<close>

definition Comment_countDocuments :: "database \<Rightarrow> string \<Rightarrow> nat" where
  "Comment_countDocuments db issueOid = length (filter (\<lambda>c. c_issue c = issueOid) (comments db))"

definition Comment_find :: "database \<Rightarrow> string \<Rightarrow> mongoose_error + comment list" where
  "Comment_find db k =
     (case castObjectId k of
        None \<Rightarrow> Inl CastError
      | Some k' \<Rightarrow> Inr (newestFirst c_createdAt (filter (\<lambda>c. c_issue c = k') (comments db))))"

definition Comment_deleteMany :: "database \<Rightarrow> string \<Rightarrow> mongoose_error + database" where
  "Comment_deleteMany db k =
     (case castObjectId k of
        None \<Rightarrow> Inl CastError
      | Some k' \<Rightarrow> Inr (db\<lparr>comments := filter (\<lambda>c. c_issue c \<noteq> k') (comments db)\<rparr>))"

definition Comment_findById :: "database \<Rightarrow> string \<Rightarrow> comment option" where
  "Comment_findById db oid = find (\<lambda>c. c_id c = oid) (comments db)"

definition Comment_create ::
  "env \<Rightarrow> database \<Rightarrow> string option \<Rightarrow> string \<Rightarrow> string \<Rightarrow> mongoose_error + comment \<times> database" where
  "Comment_create e db text a k =
     (let c = map_option trim text;
          errs = (if c = None \<or> c = Some [] then [ContentRequired] else [])
                 @ (if castObjectId a = None then [AuthorCastFailed] else [])
                 @ (if castObjectId k = None then [IssueCastFailed] else [])
      in case (errs, c, castObjectId a, castObjectId k) of
           ([], Some c', Some a', Some k') \<Rightarrow>
             (let doc = \<lparr>c_id = newId e, content = c', c_author = a', c_issue = k',
                         c_createdAt = now e\<rparr>
              in if newId e \<in> set (map c_id (comments db)) then Inl DuplicateKey
                 else Inr (doc, db\<lparr>comments := comments db @ [doc]\<rparr>))
         | _ \<Rightarrow> Inl (ValidationError errs))"

subsection \<open>User\<close>

text \<open>\<^verbatim>\<open>.populate('author', 'name email')\<close>: the user with the id, or null.\<close>

definition populate_author :: "database \<Rightarrow> string \<Rightarrow> user option" where
  "populate_author db a = find (\<lambda>u. u_id u = a) (users db)"


section \<open>The final routes (routes/issueRoutes-final.js)\<close>

subsection \<open>What a response shows of an issue\<close>

text \<open>
  \<open>ageInDays\<close> is \<^verbatim>\<open>Math.ceil(Math.abs(now - createdAt) / (1000 * 60 * 60 * 24))\<close>, an
  integer ceiling; \<open>isOverdue\<close> compares it with the threshold of the priority,
  14 for a priority the table does not list.
\<close>

definition ageInDays :: "env \<Rightarrow> issue \<Rightarrow> int" where
  "ageInDays e i = - ((- \<bar>now e - createdAt i\<bar>) div 86400000)"

definition isOverdue :: "env \<Rightarrow> issue \<Rightarrow> bool" where
  "isOverdue e i =
     (ageInDays e i >
        (case map_of [(''Urgent'', 1), (''High'', 3), (''Medium'', 7), (''Low'', 14)] (priority i) of
           Some n \<Rightarrow> n
         | None \<Rightarrow> 14))"

text \<open>
  A query result is a Mongoose document built from the stored one: a path the stored
  document lacks gets the default of the model's schema (setters and validators do
  not run). The store is not written. Under the final schema a document stored
  without \<open>description\<close> or \<open>assignee\<close> is read with the empty string there; the
  legacy schema has no default for either. \<open>status\<close> and \<open>priority\<close> have a
  default in both schemas and are stored in every document.
\<close>

definition hydrate :: "issue_schema \<Rightarrow> issue \<Rightarrow> issue" where
  "hydrate sch i =
     i\<lparr>description := (case description i of None \<Rightarrow> description_default sch | Some d \<Rightarrow> Some d),
       assignee := (case assignee i of None \<Rightarrow> assignee_default sch | Some a \<Rightarrow> Some a)\<rparr>"

text \<open>
  A document as a handler holds it after \<^verbatim>\<open>populate('author', 'name email')\<close> and as
  it is serialised under its schema: hydrated, its author looked up.
\<close>

definition populated :: "issue_schema \<Rightarrow> env \<Rightarrow> database \<Rightarrow> issue \<Rightarrow> issue_view" where
  "populated sch e db i =
     \<lparr>v_issue = hydrate sch i,
      v_author = Populated (populate_author db (author i)),
      v_commentCount = None,
      v_ageInDays = (if virtuals sch then Some (ageInDays e i) else None),
      v_isOverdue = (if virtuals sch then Some (isOverdue e i) else None)\<rparr>"

text \<open>
  \<^verbatim>\<open>{ ...issue.toObject(), commentCount, ageInDays: issue.ageInDays, isOverdue: issue.isOverdue }\<close>
\<close>

definition withCommentCount :: "env \<Rightarrow> database \<Rightarrow> issue \<Rightarrow> issue_view" where
  "withCommentCount e db i =
     (populated IssueSchema_final e db i)
       \<lparr>v_commentCount := Some (Comment_countDocuments db (i_id i)),
        v_ageInDays := Some (ageInDays e i),
        v_isOverdue := Some (isOverdue e i)\<rparr>"

text \<open>\<^verbatim>\<open>{ ...issue.toObject(), ageInDays: issue.ageInDays, isOverdue: issue.isOverdue }\<close>\<close>

definition issueWithVirtuals :: "env \<Rightarrow> database \<Rightarrow> issue \<Rightarrow> issue_view" where
  "issueWithVirtuals e db i =
     (populated IssueSchema_final e db i)
       \<lparr>v_ageInDays := Some (ageInDays e i), v_isOverdue := Some (isOverdue e i)\<rparr>"

definition commentView :: "database \<Rightarrow> comment \<Rightarrow> comment_view" where
  "commentView db c = \<lparr>v_comment = c, v_commenter = populate_author db (c_author c)\<rparr>"

subsection \<open>GET / and GET /my-issues\<close>

definition listAllIssues :: "env \<Rightarrow> database \<Rightarrow> result" where
  "listAllIssues e db =
     (case Issue_find db None of
        Inl err \<Rightarrow> serverError e ''Failed to fetch issues'' err db [Q_Issue_find]
      | Inr found \<Rightarrow>
          (let issuesWithComments = map (withCommentCount e db) found
           in respond 200 (Issues (Some (length issuesWithComments)) issuesWithComments) db
                (Q_Issue_find # map (\<lambda>i. Q_Comment_countDocuments (i_id i)) found)))"

definition listMyIssues :: "env \<Rightarrow> database \<Rightarrow> string \<Rightarrow> result" where
  "listMyIssues e db userId =
     (case Issue_find db (Some userId) of
        Inl err \<Rightarrow> serverError e ''Failed to fetch your issues'' err db [Q_Issue_find]
      | Inr found \<Rightarrow>
          (let issuesWithComments = map (withCommentCount e db) found
           in respond 200 (Issues (Some (length issuesWithComments)) issuesWithComments) db
                (Q_Issue_find # map (\<lambda>i. Q_Comment_countDocuments (i_id i)) found)))"

subsection \<open>GET /:id\<close>

definition getIssue :: "env \<Rightarrow> database \<Rightarrow> string \<Rightarrow> result" where
  "getIssue e db issueId =
     (if \<not> isObjectIdFormat issueId then respond 400 (Failure ''Invalid issue ID format'') db []
      else
        (case Issue_findById db issueId of
           Inl err \<Rightarrow> serverError e ''Failed to fetch issue'' err db [Q_Issue_findById issueId]
         | Inr None \<Rightarrow> respond 404 (Failure ''Issue not found'') db [Q_Issue_findById issueId]
         | Inr (Some i) \<Rightarrow>
             respond 200 (IssueData None (Some (issueWithVirtuals e db i))) db
               [Q_Issue_findById issueId]))"

subsection \<open>POST /\<close>

text \<open>
  \<^verbatim>\<open>{ ...req.body, author: req.user.id }\<close>: the acting user replaces any author of
  the body. The response reads the new document back by its id.
\<close>

definition createIssue :: "env \<Rightarrow> database \<Rightarrow> string \<Rightarrow> issue_fields \<Rightarrow> result" where
  "createIssue e db userId reqBody =
     (let issueData = reqBody\<lparr>f_author := Some userId\<rparr>
      in case Issue_create IssueSchema_final e db issueData of
           Inl (ValidationError errs) \<Rightarrow> respond 400 (ValidationFailure errs) db [Q_Issue_create]
         | Inl err \<Rightarrow> serverError e ''Failed to create issue'' err db [Q_Issue_create]
         | Inr (i, db') \<Rightarrow>
             (case Issue_findById db' (i_id i) of
                Inl err \<Rightarrow>
                  serverError e ''Failed to create issue'' err db'
                    [Q_Issue_create, Q_Issue_findById (i_id i)]
              | Inr populatedIssue \<Rightarrow>
                  respond 201
                    (IssueData (Some ''Issue created successfully'')
                       (map_option (populated IssueSchema_final e db') populatedIssue))
                    db' [Q_Issue_create, Q_Issue_findById (i_id i)]))"

subsection \<open>PUT /:id\<close>

definition updateIssue :: "env \<Rightarrow> database \<Rightarrow> string \<Rightarrow> issue_fields \<Rightarrow> result" where
  "updateIssue e db issueId reqBody =
     (if \<not> isObjectIdFormat issueId then respond 400 (Failure ''Invalid issue ID format'') db []
      else
        (case Issue_findById db issueId of
           Inl err \<Rightarrow> serverError e ''Failed to update issue'' err db [Q_Issue_findById issueId]
         | Inr None \<Rightarrow> respond 404 (Failure ''Issue not found'') db [Q_Issue_findById issueId]
         | Inr (Some existingIssue) \<Rightarrow>
             (case Issue_findByIdAndUpdate IssueSchema_final e db issueId reqBody of
                Inl (ValidationError errs) \<Rightarrow>
                  respond 400 (ValidationFailure errs) db
                    [Q_Issue_findById issueId, Q_Issue_findByIdAndUpdate issueId]
              | Inl err \<Rightarrow>
                  serverError e ''Failed to update issue'' err db
                    [Q_Issue_findById issueId, Q_Issue_findByIdAndUpdate issueId]
              | Inr (updatedIssue, db') \<Rightarrow>
                  respond 200
                    (IssueData (Some ''Issue updated successfully'')
                       (map_option (populated IssueSchema_final e db') updatedIssue))
                    db' [Q_Issue_findById issueId, Q_Issue_findByIdAndUpdate issueId])))"

subsection \<open>DELETE /:id\<close>

definition deleteIssue :: "env \<Rightarrow> database \<Rightarrow> string \<Rightarrow> result" where
  "deleteIssue e db issueId =
     (if \<not> isObjectIdFormat issueId then respond 400 (Failure ''Invalid issue ID format'') db []
      else
        (case Issue_findById db issueId of
           Inl err \<Rightarrow> serverError e ''Failed to delete issue'' err db [Q_Issue_findById issueId]
         | Inr None \<Rightarrow> respond 404 (Failure ''Issue not found'') db [Q_Issue_findById issueId]
         | Inr (Some i) \<Rightarrow>
             (case Issue_findByIdAndDelete db issueId of
                Inl err \<Rightarrow>
                  serverError e ''Failed to delete issue'' err db
                    [Q_Issue_findById issueId, Q_Issue_findByIdAndDelete issueId]
              | Inr db1 \<Rightarrow>
                  (case Comment_deleteMany db1 issueId of
                     Inl err \<Rightarrow>
                       serverError e ''Failed to delete issue'' err db1
                         [Q_Issue_findById issueId, Q_Issue_findByIdAndDelete issueId,
                          Q_Comment_deleteMany issueId]
                   | Inr db2 \<Rightarrow>
                       respond 200 (Message ''Issue and associated comments deleted successfully'') db2
                         [Q_Issue_findById issueId, Q_Issue_findByIdAndDelete issueId,
                          Q_Comment_deleteMany issueId]))))"

subsection \<open>GET /:id/comments\<close>

definition listComments :: "env \<Rightarrow> database \<Rightarrow> string \<Rightarrow> result" where
  "listComments e db issueId =
     (if \<not> isObjectIdFormat issueId then respond 400 (Failure ''Invalid issue ID format'') db []
      else
        (case Issue_findById db issueId of
           Inl err \<Rightarrow> serverError e ''Failed to fetch comments'' err db [Q_Issue_findById issueId]
         | Inr None \<Rightarrow> respond 404 (Failure ''Issue not found'') db [Q_Issue_findById issueId]
         | Inr (Some i) \<Rightarrow>
             (case Comment_find db issueId of
                Inl err \<Rightarrow>
                  serverError e ''Failed to fetch comments'' err db
                    [Q_Issue_findById issueId, Q_Comment_find issueId]
              | Inr found \<Rightarrow>
                  respond 200 (Comments (Some (length found)) (map (commentView db) found)) db
                    [Q_Issue_findById issueId, Q_Comment_find issueId])))"

subsection \<open>POST /:id/comments\<close>

text \<open>
  \<open>content\<close> is \<^verbatim>\<open>req.body.content\<close>, \<open>None\<close> when the body has none. The id is
  tested first, then \<^verbatim>\<open>!content || content.trim().length === 0\<close>, then the issue
  is looked up.
\<close>

definition addComment :: "env \<Rightarrow> database \<Rightarrow> string \<Rightarrow> string \<Rightarrow> string option \<Rightarrow> result" where
  "addComment e db userId issueId reqContent =
     (if \<not> isObjectIdFormat issueId then respond 400 (Failure ''Invalid issue ID format'') db []
      else
        (case reqContent of
           None \<Rightarrow> respond 400 (Failure ''Comment content is required'') db []
         | Some text \<Rightarrow>
             if text = [] \<or> length (trim text) = 0
             then respond 400 (Failure ''Comment content is required'') db []
             else
               (case Issue_findById db issueId of
                  Inl err \<Rightarrow> serverError e ''Failed to add comment'' err db [Q_Issue_findById issueId]
                | Inr None \<Rightarrow> respond 404 (Failure ''Issue not found'') db [Q_Issue_findById issueId]
                | Inr (Some i) \<Rightarrow>
                    (case Comment_create e db (Some (trim text)) userId issueId of
                       Inl (ValidationError errs) \<Rightarrow>
                         respond 400 (ValidationFailure errs) db
                           [Q_Issue_findById issueId, Q_Comment_create]
                     | Inl err \<Rightarrow>
                         serverError e ''Failed to add comment'' err db
                           [Q_Issue_findById issueId, Q_Comment_create]
                     | Inr (c, db') \<Rightarrow>
                         respond 201
                           (CommentData (Some ''Comment added successfully'')
                              (map_option (commentView db') (Comment_findById db' (c_id c))))
                           db'
                           [Q_Issue_findById issueId, Q_Comment_create,
                            Q_Comment_findById (c_id c)]))))"


subsection \<open>GET /my-stats\<close>

text \<open>
  A JavaScript number is an IEEE 754 binary64 value; a finite one is a rational.
  \<open>fl\<close> rounds a rational that is not negative to the nearest binary64 value, ties
  to the even mantissa of 53 bits: \<open>binade x\<close> is the exponent of the power of two
  at or below \<open>x\<close>. The exponent range is not bounded (no subnormal numbers, no
  overflow); the quotients and products below lie between \<open>1 / total\<close> and 100.
\<close>

fun bits :: "nat \<Rightarrow> nat" where
  "bits n = (if n = 0 then 0 else Suc (bits (n div 2)))"

definition binade :: "rat \<Rightarrow> int" where
  "binade x =
     (let (p, q) = quotient_of x;
          k = int (bits (nat p)) - int (bits (nat q))
      in if 2 powi k \<le> x then k else k - 1)"

definition roundHalfEven :: "rat \<Rightarrow> int" where
  "roundHalfEven x =
     (let f = \<lfloor>x\<rfloor>; r = x - of_int f
      in if r < 1 / 2 then f else if 1 / 2 < r then f + 1 else if even f then f else f + 1)"

definition fl :: "rat \<Rightarrow> rat" where
  "fl x =
     (if x \<le> 0 then 0
      else of_int (roundHalfEven (x * 2 powi (52 - binade x))) * 2 powi (binade x - 52))"

definition js_div :: "rat \<Rightarrow> rat \<Rightarrow> rat" where
  "js_div x y = fl (x / y)"

definition js_mul :: "rat \<Rightarrow> rat \<Rightarrow> rat" where
  "js_mul x y = fl (x * y)"

text \<open>
  \<^verbatim>\<open>x.toFixed(1)\<close> for \<open>x\<close> that is not negative: the integer \<open>n\<close> with \<open>n / 10\<close>
  nearest to \<open>x\<close>, the larger one of two, written in decimal with a point before
  its last digit.
\<close>

definition digit :: "nat \<Rightarrow> char" where
  "digit d = char_of (48 + d)"

fun digits :: "nat \<Rightarrow> string" where
  "digits n = (if n < 10 then [digit n] else digits (n div 10) @ [digit (n mod 10)])"

definition decimal1 :: "nat \<Rightarrow> string" where
  "decimal1 n = digits (n div 10) @ ''.'' @ [digit (n mod 10)]"

definition toFixed1 :: "rat \<Rightarrow> string" where
  "toFixed1 x = decimal1 (nat \<lfloor>10 * x + 1 / 2\<rfloor>)"

text \<open>
  \<^verbatim>\<open>total > 0 ? ((resolved + closed) / total * 100).toFixed(1) : 0\<close>: a string in
  the first case, the number 0 in the second.
\<close>

definition completionRate_of :: "nat \<Rightarrow> nat \<Rightarrow> nat \<Rightarrow> rate" where
  "completionRate_of t r c =
     (if t > 0 then Text (toFixed1 (js_mul (js_div (of_nat (r + c)) (of_nat t)) 100))
      else Number 0)"

text \<open>
  The five counts are started together (\<^verbatim>\<open>Promise.all\<close>); a count that throws
  sends the handler to its catch block. Every count casts the same author, so the
  only error is the CastError of that cast.
\<close>

definition myStatistics :: "env \<Rightarrow> database \<Rightarrow> string \<Rightarrow> result" where
  "myStatistics e db userId =
     (case (Issue_countDocuments db userId None,
            Issue_countDocuments db userId (Some ''Open''),
            Issue_countDocuments db userId (Some ''In Progress''),
            Issue_countDocuments db userId (Some ''Resolved''),
            Issue_countDocuments db userId (Some ''Closed'')) of
        (Inr t, Inr opn, Inr inProg, Inr res, Inr cls) \<Rightarrow>
          respond 200
            (Statistics
               \<lparr>total = t, open = opn, inProgress = inProg, resolved = res, closed = cls,
                solved = res + cls, ongoing = opn + inProg,
                completionRate = Some (completionRate_of t res cls)\<rparr>)
            db (replicate 5 Q_Issue_countDocuments)
      | _ \<Rightarrow>
          serverError e ''Failed to fetch statistics'' CastError db
            (replicate 5 Q_Issue_countDocuments))"


section \<open>The legacy routes (routes/issueRoutes.js)\<close>




text \<open>The five counts are awaited one after the other; the first that throws ends them.\<close>

definition legacy_myStatistics :: "env \<Rightarrow> database \<Rightarrow> string \<Rightarrow> result" where
  "legacy_myStatistics e db userId =
     (case Issue_countDocuments db userId None of
        Inl err \<Rightarrow> respond 500 (Failure ''Server error'') db [Q_Issue_countDocuments]
      | Inr t \<Rightarrow>
     (case Issue_countDocuments db userId (Some ''Open'') of
        Inl err \<Rightarrow> respond 500 (Failure ''Server error'') db (replicate 2 Q_Issue_countDocuments)
      | Inr opn \<Rightarrow>
     (case Issue_countDocuments db userId (Some ''In Progress'') of
        Inl err \<Rightarrow> respond 500 (Failure ''Server error'') db (replicate 3 Q_Issue_countDocuments)
      | Inr inProg \<Rightarrow>
     (case Issue_countDocuments db userId (Some ''Resolved'') of
        Inl err \<Rightarrow> respond 500 (Failure ''Server error'') db (replicate 4 Q_Issue_countDocuments)
      | Inr res \<Rightarrow>
     (case Issue_countDocuments db userId (Some ''Closed'') of
        Inl err \<Rightarrow> respond 500 (Failure ''Server error'') db (replicate 5 Q_Issue_countDocuments)
      | Inr cls \<Rightarrow>
          respond 200
            (Statistics
               \<lparr>total = t, open = opn, inProgress = inProg, resolved = res, closed = cls,
                solved = res + cls, ongoing = opn + inProg, completionRate = None\<rparr>)
            db (replicate 5 Q_Issue_countDocuments))))))"

definition legacy_getIssue :: "env \<Rightarrow> database \<Rightarrow> string \<Rightarrow> result" where
  "legacy_getIssue e db k =
     (case Issue_findById db k of
        Inl err \<Rightarrow> respond 500 (Failure ''Server error'') db [Q_Issue_findById k]
      | Inr None \<Rightarrow> respond 404 (Failure ''Issue not found'') db [Q_Issue_findById k]
      | Inr (Some i) \<Rightarrow>
          respond 200 (IssueData None (Some (populated IssueSchema_legacy e db i))) db
            [Q_Issue_findById k])"

definition legacy_createIssue :: "env \<Rightarrow> database \<Rightarrow> string \<Rightarrow> issue_fields \<Rightarrow> result" where
  "legacy_createIssue e db userId reqBody =
     (let issueData = reqBody\<lparr>f_author := Some userId\<rparr>
      in case Issue_create IssueSchema_legacy e db issueData of
           Inl err \<Rightarrow> respond 400 (Thrown err) db [Q_Issue_create]
         | Inr (i, db') \<Rightarrow>
             (case Issue_findById db' (i_id i) of
                Inl err \<Rightarrow> respond 400 (Thrown err) db' [Q_Issue_create, Q_Issue_findById (i_id i)]
              | Inr populatedIssue \<Rightarrow>
                  respond 201
                    (IssueData None (map_option (populated IssueSchema_legacy e db') populatedIssue))
                    db' [Q_Issue_create, Q_Issue_findById (i_id i)]))"



text \<open>The comments of the issue are left in the store.\<close>

definition legacy_deleteIssue :: "env \<Rightarrow> database \<Rightarrow> string \<Rightarrow> result" where
  "legacy_deleteIssue e db k =
     (case Issue_findById db k of
        Inl err \<Rightarrow> respond 500 (Failure ''Server error'') db [Q_Issue_findById k]
      | Inr None \<Rightarrow> respond 404 (Failure ''Issue not found'') db [Q_Issue_findById k]
      | Inr (Some i) \<Rightarrow>
          (case Issue_findByIdAndDelete db k of
             Inl err \<Rightarrow>
               respond 500 (Failure ''Server error'') db [Q_Issue_findById k, Q_Issue_findByIdAndDelete k]
           | Inr db' \<Rightarrow>
               respond 200 (Message ''Issue deleted'') db'
                 [Q_Issue_findById k, Q_Issue_findByIdAndDelete k]))"

text \<open>The issue is not looked up: the comments of an id without an issue are an empty list.\<close>

definition legacy_listComments :: "env \<Rightarrow> database \<Rightarrow> string \<Rightarrow> result" where
  "legacy_listComments e db k =
     (case Comment_find db k of
        Inl err \<Rightarrow> respond 500 (Failure ''Server error'') db [Q_Comment_find k]
      | Inr found \<Rightarrow> respond 200 (Comments None (map (commentView db) found)) db [Q_Comment_find k])"

text \<open>The content goes to \<^verbatim>\<open>Comment.create\<close> as the body has it.\<close>

definition legacy_addComment :: "env \<Rightarrow> database \<Rightarrow> string \<Rightarrow> string \<Rightarrow> string option \<Rightarrow> result" where
  "legacy_addComment e db userId k reqContent =
     (case Issue_findById db k of
        Inl err \<Rightarrow> respond 400 (Thrown err) db [Q_Issue_findById k]
      | Inr None \<Rightarrow> respond 404 (Failure ''Issue not found'') db [Q_Issue_findById k]
      | Inr (Some i) \<Rightarrow>
          (case Comment_create e db reqContent userId k of
             Inl err \<Rightarrow> respond 400 (Thrown err) db [Q_Issue_findById k, Q_Comment_create]
           | Inr (c, db') \<Rightarrow>
               respond 201
                 (CommentData None (map_option (commentView db') (Comment_findById db' (c_id c))))
                 db' [Q_Issue_findById k, Q_Comment_create, Q_Comment_findById (c_id c)]))"


section \<open>Notions of the specification\<close>

text \<open>Some stored issue has the ObjectId that the string \<open>k\<close> spells.\<close>

definition holdsIssue :: "database \<Rightarrow> string \<Rightarrow> bool" where
  "holdsIssue db k = (map toLowerHex k \<in> set (map i_id (issues db)))"

text \<open>The unique index on \<open>_id\<close> that MongoDB keeps for every collection.\<close>

definition uniqueIds :: "database \<Rightarrow> bool" where
  "uniqueIds db = (distinct (map i_id (issues db)) \<and> distinct (map c_id (comments db)))"

text \<open>Newest first: no element is older than one that follows it.\<close>

definition descending :: "('a \<Rightarrow> int) \<Rightarrow> 'a list \<Rightarrow> bool" where
  "descending date xs = sorted_wrt (\<lambda>a b. date b \<le> date a) xs"

text \<open>The documents of a list response, in the order of its \<open>data\<close>.\<close>

definition issuesOf :: "body \<Rightarrow> issue list" where
  "issuesOf b = (case b of Issues n vs \<Rightarrow> map v_issue vs | _ \<Rightarrow> [])"

definition commentsOf :: "body \<Rightarrow> comment list" where
  "commentsOf b = (case b of Comments n vs \<Rightarrow> map v_comment vs | _ \<Rightarrow> [])"

text \<open>
  The constraints of the spec's data model, on the values as the request gives them:
  the title has 3 to 200 characters after trimming, the description at most 2000 and
  the assignee at most 100 after trimming, status and priority are of their enums.
  A draft needs a title; a patch is checked on the fields it has.
\<close>

definition titleOk :: "string \<Rightarrow> bool" where
  "titleOk t = (3 \<le> length (trim t) \<and> length (trim t) \<le> 200)"

definition descriptionOk :: "string \<Rightarrow> bool" where
  "descriptionOk d = (length (trim d) \<le> 2000)"

definition statusOk :: "string \<Rightarrow> bool" where
  "statusOk s = (s \<in> set [''Open'', ''In Progress'', ''Resolved'', ''Closed''])"

definition priorityOk :: "string \<Rightarrow> bool" where
  "priorityOk p = (p \<in> set [''Low'', ''Medium'', ''High'', ''Urgent''])"

definition assigneeOk :: "string \<Rightarrow> bool" where
  "assigneeOk a = (length (trim a) \<le> 100)"

definition whenPresent :: "('a \<Rightarrow> bool) \<Rightarrow> 'a option \<Rightarrow> bool" where
  "whenPresent P v = (case v of None \<Rightarrow> True | Some x \<Rightarrow> P x)"

definition validDraft :: "issue_fields \<Rightarrow> bool" where
  "validDraft f =
     ((case f_title f of None \<Rightarrow> False | Some t \<Rightarrow> titleOk t)
      \<and> whenPresent descriptionOk (f_description f)
      \<and> whenPresent statusOk (f_status f)
      \<and> whenPresent priorityOk (f_priority f)
      \<and> whenPresent assigneeOk (f_assignee f))"

definition validPatch :: "issue_fields \<Rightarrow> bool" where
  "validPatch f =
     (whenPresent titleOk (f_title f)
      \<and> whenPresent descriptionOk (f_description f)
      \<and> whenPresent statusOk (f_status f)
      \<and> whenPresent priorityOk (f_priority f)
      \<and> whenPresent assigneeOk (f_assignee f))"

text \<open>A field of a request, trimmed or as given, or its default when absent.\<close>

definition trimmedOr :: "string \<Rightarrow> string option \<Rightarrow> string" where
  "trimmedOr dflt v = (case v of None \<Rightarrow> dflt | Some x \<Rightarrow> trim x)"

definition givenOr :: "string \<Rightarrow> string option \<Rightarrow> string" where
  "givenOr dflt v = (case v of None \<Rightarrow> dflt | Some x \<Rightarrow> x)"

text \<open>The document of a single-issue response.\<close>

definition issueOf :: "body \<Rightarrow> issue option" where
  "issueOf b = (case b of IssueData m (Some v) \<Rightarrow> Some (v_issue v) | _ \<Rightarrow> None)"

text \<open>
  The issue the spec has a valid draft stored as: strings trimmed, absent fields at
  their defaults, the acting user as author, both dates the clock's.
\<close>

definition storedIssue :: "env \<Rightarrow> string \<Rightarrow> issue_fields \<Rightarrow> issue" where
  "storedIssue e a f =
     \<lparr>i_id = newId e,
      title = trimmedOr [] (f_title f),
      description = Some (trimmedOr [] (f_description f)),
      status = givenOr ''Open'' (f_status f),
      priority = givenOr ''Low'' (f_priority f),
      assignee = Some (trimmedOr [] (f_assignee f)),
      author = a, createdAt = now e, updatedAt = now e\<rparr>"

text \<open>
  What the spec's "equivalent response body" is taken to mean: the legacy body is the
  final body without what only the final routes send (the count, the two virtuals,
  the completion rate and the message beside the data; also the \<open>id\<close> alias of
  \<open>_id\<close> that serialising with virtuals adds, which the views here do not show).
  Two results agree when they have the same status, leave the same store and have
  such bodies.
\<close>

definition dropVirtuals :: "issue_view \<Rightarrow> issue_view" where
  "dropVirtuals v = v\<lparr>v_ageInDays := None, v_isOverdue := None\<rparr>"

definition legacyShape :: "body \<Rightarrow> body" where
  "legacyShape b =
     (case b of
        Issues n vs \<Rightarrow> Issues None (map dropVirtuals vs)
      | Statistics s \<Rightarrow> Statistics (s\<lparr>completionRate := None\<rparr>)
      | IssueData m v \<Rightarrow> IssueData None (map_option dropVirtuals v)
      | Comments n vs \<Rightarrow> Comments None vs
      | CommentData m v \<Rightarrow> CommentData None v
      | _ \<Rightarrow> b)"

definition agree :: "result \<Rightarrow> result \<Rightarrow> bool" where
  "agree l r = (r_status l = r_status r \<and> r_db l = r_db r \<and> r_body l = legacyShape (r_body r))"

text \<open>
  Every stored issue has a description and an assignee, as every issue has that was
  created under the final schema; an issue created under the legacy schema from a
  body without them has neither.
\<close>

definition storedInFull :: "database \<Rightarrow> bool" where
  "storedInFull db = list_all (\<lambda>i. description i \<noteq> None \<and> assignee i \<noteq> None) (issues db)"

text \<open>
  The spec's "rounded to 1 decimal", following the spec's words: the number of tenths
  nearest to \<open>x\<close>, the upper one when \<open>x\<close> lies midway between two.
\<close>

definition roundedTenths :: "rat \<Rightarrow> int" where
  "roundedTenths x = \<lfloor>10 * x + 1 / 2\<rfloor>"

text \<open>
  Reading a decimal with one digit after the point, as a client reads the text of the
  completion rate: digits without a superfluous leading zero, a point, one digit.
  The result is the number of tenths the text denotes. It is defined on the text
  alone, not through the function that writes it.
\<close>

definition isDigit :: "char \<Rightarrow> bool" where
  "isDigit c = (c \<in> set ''0123456789'')"

definition digitValue :: "char \<Rightarrow> nat" where
  "digitValue c = of_char c - 48"

definition numeralValue :: "string \<Rightarrow> nat" where
  "numeralValue s = foldl (\<lambda>v c. 10 * v + digitValue c) 0 s"

definition readFixed1 :: "string \<Rightarrow> nat option" where
  "readFixed1 s =
     (case rev s of
        d # p # w \<Rightarrow>
          if p = CHR ''.'' \<and> isDigit d \<and> w \<noteq> [] \<and> list_all isDigit w
             \<and> (last w \<noteq> CHR ''0'' \<or> length w = 1)
          then Some (10 * numeralValue (rev w) + digitValue d)
          else None
      | _ \<Rightarrow> None)"

text \<open>
  Every stored issue has a status of the enum: what the schema's validators keep true
  of a store that is written through the routes.
\<close>

definition statusesValid :: "database \<Rightarrow> bool" where
  "statusesValid db =
     list_all (\<lambda>i. status i \<in> set [''Open'', ''In Progress'', ''Resolved'', ''Closed'']) (issues db)"


section \<open>Example data\<close>

definition aliceId :: string where
  "aliceId = ''507f1f77bcf86cd799439011''"

definition bobId :: string where
  "bobId = ''507f191e810c19729de860ea''"

definition issueA :: string where
  "issueA = ''64b0c0ffee0000000000000a''"

definition issueB :: string where
  "issueB = ''64b0c0ffee0000000000000b''"

definition commentA :: string where
  "commentA = ''64c0c0ffee0000000000000a''"

definition alice :: user where
  "alice = \<lparr>u_id = aliceId, u_name = ''Alice'', u_email = ''alice@example.com''\<rparr>"

definition bugX :: issue where
  "bugX = \<lparr>i_id = issueA, title = ''Bug X'', description = Some [], status = ''Open'',
           priority = ''Low'', assignee = Some [], author = aliceId,
           createdAt = 1000, updatedAt = 1000\<rparr>"

definition noteC :: comment where
  "noteC = \<lparr>c_id = commentA, content = ''seen it too'', c_author = aliceId, c_issue = issueA,
            c_createdAt = 2000\<rparr>"

definition emptyDb :: database where
  "emptyDb = \<lparr>users = [alice], issues = [], comments = []\<rparr>"

definition oneIssueDb :: database where
  "oneIssueDb = \<lparr>users = [alice], issues = [bugX], comments = [noteC]\<rparr>"

definition env1 :: env where
  "env1 = \<lparr>now = 5000, newId = issueB, development = False\<rparr>"

definition emptyPatch :: issue_fields where
  "emptyPatch = \<lparr>f_title = None, f_description = None, f_status = None, f_priority = None,
                  f_assignee = None, f_author = None\<rparr>"


definition issueA_upper :: string where
  "issueA_upper = ''64B0C0FFEE0000000000000A''"


definition issueC :: string where
  "issueC = ''64b0c0ffee0000000000000c''"

definition commentB :: string where
  "commentB = ''64c0c0ffee0000000000000b''"

definition bugY :: issue where
  "bugY = \<lparr>i_id = issueC, title = ''Bug Y'', description = Some ''crash on save'',
           status = ''Resolved'', priority = ''High'', assignee = Some ''Bob'', author = bobId,
           createdAt = 3000, updatedAt = 3500\<rparr>"

definition noteD :: comment where
  "noteD = \<lparr>c_id = commentB, content = ''fixed in 1.2'', c_author = bobId, c_issue = issueA,
            c_createdAt = 4000\<rparr>"

definition twoIssueDb :: database where
  "twoIssueDb = \<lparr>users = [alice], issues = [bugX, bugY], comments = [noteC, noteD]\<rparr>"


definition authorPatch :: issue_fields where
  "authorPatch = emptyPatch\<lparr>f_author := Some bobId\<rparr>"


definition paddedDraft :: issue_fields where
  "paddedDraft = emptyPatch\<lparr>f_title := Some ''  Bug X  '', f_author := Some bobId\<rparr>"


definition spacesDraft :: issue_fields where
  "spacesDraft =
     emptyPatch\<lparr>f_title := Some ''Bug X'', f_description := Some (replicate 2001 (CHR '' ''))\<rparr>"

definition shortDraft :: issue_fields where
  "shortDraft = emptyPatch\<lparr>f_title := Some '' ab ''\<rparr>"

definition closePatch :: issue_fields where
  "closePatch = emptyPatch\<lparr>f_status := Some ''Closed''\<rparr>"




definition issueD :: string where
  "issueD = ''64b0c0ffee0000000000000d''"

definition bugW :: issue where
  "bugW = \<lparr>i_id = issueD, title = ''Bug W'', description = Some [], status = ''Closed'',
           priority = ''Urgent'', assignee = Some [], author = aliceId,
           createdAt = 4000, updatedAt = 4500\<rparr>"

definition statsDb :: database where
  "statsDb = \<lparr>users = [alice],
              issues = [bugX, bugY\<lparr>author := aliceId\<rparr>, bugW, bugY],
              comments = []\<rparr>"


text \<open>A body with a title only, and the issue the legacy schema stores for it.\<close>

definition titleDraft :: issue_fields where
  "titleDraft = emptyPatch\<lparr>f_title := Some ''Bug V''\<rparr>"

definition bareBug :: issue where
  "bareBug = \<lparr>i_id = issueB, title = ''Bug V'', description = None, status = ''Open'',
              priority = ''Low'', assignee = None, author = aliceId,
              createdAt = 5000, updatedAt = 5000\<rparr>"

text \<open>
  A store of 96 issues with distinct ids: 80 of Alice, 23 of them solved, and 16 of Bob,
  3 of them solved.
\<close>

definition numbered :: "string \<Rightarrow> string \<Rightarrow> nat \<Rightarrow> issue" where
  "numbered a st n =
     \<lparr>i_id = ''64b0c0ffee000000000000'' @ [digit (n div 10), digit (n mod 10)],
      title = ''Bug'', description = Some [], status = st, priority = ''Low'',
      assignee = Some [], author = a, createdAt = int n, updatedAt = int n\<rparr>"

definition tieDb :: database where
  "tieDb =
     \<lparr>users = [alice],
      issues = map (numbered aliceId ''Closed'') [0..<12]
             @ map (numbered aliceId ''Resolved'') [12..<23]
             @ map (numbered aliceId ''Open'') [23..<80]
             @ map (numbered bobId ''Closed'') [80..<83]
             @ map (numbered bobId ''In Progress'') [83..<96],
      comments = []\<rparr>"


section \<open>Properties\<close>

lemmas fixture_defs = aliceId_def bobId_def issueA_def issueB_def commentA_def alice_def bugX_def
  noteC_def emptyDb_def oneIssueDb_def env1_def emptyPatch_def issueA_upper_def
  issueC_def commentB_def bugY_def noteD_def twoIssueDb_def authorPatch_def

lemmas id_defs = isObjectIdFormat_def isHexDigit_def castObjectId_def toLowerHex_def

declare digits.simps [simp del]

lemma hydrate_full: "description i \<noteq> None \<Longrightarrow> assignee i \<noteq> None \<Longrightarrow> hydrate sch i = i"
  by (auto simp: hydrate_def)

lemma hydrate_stored_in_full:
  "list_all (\<lambda>i. description i \<noteq> None \<and> assignee i \<noteq> None) xs \<Longrightarrow> map (hydrate sch) xs = xs"
  by (induction xs) (simp_all add: hydrate_full)

lemma hydrate_legacy [simp]: "hydrate IssueSchema_legacy i = i"
  by (simp add: hydrate_def IssueSchema_legacy_def split: option.splits)

lemma hydrate_keeps [simp]:
  "i_id (hydrate sch i) = i_id i" "title (hydrate sch i) = title i"
  "status (hydrate sch i) = status i" "priority (hydrate sch i) = priority i"
  "author (hydrate sch i) = author i" "createdAt (hydrate sch i) = createdAt i"
  "updatedAt (hydrate sch i) = updatedAt i"
  by (simp_all add: hydrate_def)

lemma find_None_iff_notin: "(find (\<lambda>i. f i = k) xs = None) = (k \<notin> set (map f xs))"
  by (induction xs) auto

lemma Issue_findById_wf:
  "isObjectIdFormat k \<Longrightarrow>
   Issue_findById db k = Inr (find (\<lambda>i. i_id i = map toLowerHex k) (issues db))"
  by (simp add: Issue_findById_def castObjectId_def)

lemma Issue_findById_absent:
  "isObjectIdFormat k \<Longrightarrow> \<not> holdsIssue db k \<Longrightarrow> Issue_findById db k = Inr None"
  by (simp add: Issue_findById_wf holdsIssue_def find_None_iff_notin)

subsection \<open>Malformed and absent ids\<close>

text \<open>
  Claim C6. For getIssue, updateIssue and deleteIssue, an id that is not of the
  ObjectId format (such as "abc") is answered 400 with the format error, and an id of
  the format that no stored issue has is answered 404 "Issue not found": the two
  failures have different statuses and different bodies.
\<close>

theorem malformed_id_400_absent_id_404:
  "(\<not> isObjectIdFormat k \<longrightarrow>
      r_status (getIssue e db k) = 400
    \<and> r_body (getIssue e db k) = Failure ''Invalid issue ID format''
    \<and> r_status (updateIssue e db k f) = 400
    \<and> r_body (updateIssue e db k f) = Failure ''Invalid issue ID format''
    \<and> r_status (deleteIssue e db k) = 400
    \<and> r_body (deleteIssue e db k) = Failure ''Invalid issue ID format'')
 \<and> (isObjectIdFormat k \<and> \<not> holdsIssue db k \<longrightarrow>
      r_status (getIssue e db k) = 404
    \<and> r_body (getIssue e db k) = Failure ''Issue not found''
    \<and> r_status (updateIssue e db k f) = 404
    \<and> r_body (updateIssue e db k f) = Failure ''Issue not found''
    \<and> r_status (deleteIssue e db k) = 404
    \<and> r_body (deleteIssue e db k) = Failure ''Issue not found'')"
  by (simp add: getIssue_def updateIssue_def deleteIssue_def respond_def Issue_findById_absent)

theorem malformed_id_400_absent_id_404_witness:
  "\<not> isObjectIdFormat ''abc''
   \<and> r_status (getIssue env1 oneIssueDb ''abc'') = 400
   \<and> r_status (updateIssue env1 oneIssueDb ''abc'' emptyPatch) = 400
   \<and> r_status (deleteIssue env1 oneIssueDb ''abc'') = 400
   \<and> isObjectIdFormat aliceId \<and> \<not> holdsIssue oneIssueDb aliceId
   \<and> r_status (getIssue env1 oneIssueDb aliceId) = 404
   \<and> r_status (updateIssue env1 oneIssueDb aliceId emptyPatch) = 404
   \<and> r_status (deleteIssue env1 oneIssueDb aliceId) = 404"
proof -
  have a: "\<not> isObjectIdFormat ''abc''"
    by (simp add: id_defs)
  have b: "isObjectIdFormat aliceId"
    by (simp add: id_defs fixture_defs)
  have c: "\<not> holdsIssue oneIssueDb aliceId"
    by (simp add: holdsIssue_def id_defs fixture_defs)
  show ?thesis
    using a b c
      malformed_id_400_absent_id_404 [of "''abc''" env1 oneIssueDb emptyPatch]
      malformed_id_400_absent_id_404 [of aliceId env1 oneIssueDb emptyPatch]
    by simp
qed

subsection \<open>Which ids reach the storage layer\<close>

lemma trim_Nil [simp]: "trim [] = []"
  by (simp add: trim_def)

lemma calls_getIssue: "(r_calls (getIssue e db k) \<noteq> []) = isObjectIdFormat k"
  by (simp add: getIssue_def respond_def serverError_def split: sum.splits option.splits)

lemma calls_updateIssue: "(r_calls (updateIssue e db k f) \<noteq> []) = isObjectIdFormat k"
  by (simp add: updateIssue_def respond_def serverError_def
      split: sum.splits option.splits mongoose_error.splits prod.splits)

lemma calls_deleteIssue: "(r_calls (deleteIssue e db k) \<noteq> []) = isObjectIdFormat k"
  by (simp add: deleteIssue_def respond_def serverError_def split: sum.splits option.splits)

lemma calls_listComments: "(r_calls (listComments e db k) \<noteq> []) = isObjectIdFormat k"
  by (simp add: listComments_def respond_def serverError_def split: sum.splits option.splits)

lemma calls_addComment:
  "(r_calls (addComment e db u k c) \<noteq> []) =
   (isObjectIdFormat k \<and> (\<exists>t. c = Some t \<and> trim t \<noteq> []))"
  by (auto simp add: addComment_def respond_def serverError_def
      split: sum.splits option.splits mongoose_error.splits prod.splits)

text \<open>
  Claim C4, as the spec states it, fails: the id of a stored issue written in capital
  hexadecimal digits is no lowercase string, and getIssue looks it up and finds the
  issue.
\<close>

theorem uppercase_id_is_looked_up:
  "\<not> isLowercaseObjectId issueA_upper
   \<and> r_calls (getIssue env1 oneIssueDb issueA_upper) = [Q_Issue_findById issueA_upper]
   \<and> r_status (getIssue env1 oneIssueDb issueA_upper) = 200"
  by (simp add: isLowercaseObjectId_def isLowerHexDigit_def getIssue_def id_defs
      Issue_findById_def respond_def fixture_defs)

text \<open>
  Claim C4, amended. getIssue, updateIssue, deleteIssue and listComments make a
  storage call exactly for an id of 24 hexadecimal digits of either case; addComment
  does so exactly for such an id with a content that is not empty after trimming.
  Every id of another shape is answered 400 "Invalid issue ID format" with the store
  unchanged and no storage call made.
\<close>

theorem storage_calls_only_for_24_hex_ids:
  "(r_calls (getIssue e db k) \<noteq> []) = isObjectIdFormat k
 \<and> (r_calls (updateIssue e db k f) \<noteq> []) = isObjectIdFormat k
 \<and> (r_calls (deleteIssue e db k) \<noteq> []) = isObjectIdFormat k
 \<and> (r_calls (listComments e db k) \<noteq> []) = isObjectIdFormat k
 \<and> (r_calls (addComment e db u k c) \<noteq> [])
     = (isObjectIdFormat k \<and> (\<exists>t. c = Some t \<and> trim t \<noteq> []))
 \<and> (\<not> isObjectIdFormat k \<longrightarrow>
       getIssue e db k = respond 400 (Failure ''Invalid issue ID format'') db []
     \<and> updateIssue e db k f = respond 400 (Failure ''Invalid issue ID format'') db []
     \<and> deleteIssue e db k = respond 400 (Failure ''Invalid issue ID format'') db []
     \<and> listComments e db k = respond 400 (Failure ''Invalid issue ID format'') db []
     \<and> addComment e db u k c = respond 400 (Failure ''Invalid issue ID format'') db [])"
  by (simp add: calls_getIssue calls_updateIssue calls_deleteIssue calls_listComments
        calls_addComment)
     (simp add: getIssue_def updateIssue_def deleteIssue_def listComments_def addComment_def)

theorem storage_calls_only_for_24_hex_ids_witness:
  "\<not> isObjectIdFormat ''abc''
   \<and> getIssue env1 oneIssueDb ''abc'' = respond 400 (Failure ''Invalid issue ID format'') oneIssueDb []
   \<and> addComment env1 oneIssueDb aliceId ''abc'' (Some ''hello'')
       = respond 400 (Failure ''Invalid issue ID format'') oneIssueDb []
   \<and> isObjectIdFormat issueA_upper
   \<and> r_calls (deleteIssue env1 oneIssueDb issueA_upper) \<noteq> []"
proof -
  have a: "\<not> isObjectIdFormat ''abc''"
    by (simp add: id_defs)
  have b: "isObjectIdFormat issueA_upper"
    by (simp add: id_defs fixture_defs)
  show ?thesis
    using a b
      storage_calls_only_for_24_hex_ids [of env1 oneIssueDb "''abc''" emptyPatch aliceId "Some ''hello''"]
      storage_calls_only_for_24_hex_ids [of env1 oneIssueDb issueA_upper emptyPatch aliceId None]
    by simp
qed

subsection \<open>Deleting an issue\<close>

lemma deleteFirst_removes_id:
  "distinct (map f xs) \<Longrightarrow> k \<notin> f ` set (deleteFirst (\<lambda>i. f i = k) xs)"
  by (induction xs) auto

lemma holdsIssue_iff_found:
  "holdsIssue db k = (find (\<lambda>i. i_id i = map toLowerHex k) (issues db) \<noteq> None)"
  by (simp add: holdsIssue_def find_None_iff_notin)

lemma deleteIssue_ok_result:
  assumes "r_status (deleteIssue e db k) = 200"
  shows "isObjectIdFormat k \<and> holdsIssue db k
       \<and> r_db (deleteIssue e db k) =
           db\<lparr>issues := deleteFirst (\<lambda>i. i_id i = map toLowerHex k) (issues db),
              comments := filter (\<lambda>c. c_issue c \<noteq> map toLowerHex k) (comments db)\<rparr>"
proof -
  have fmt: "isObjectIdFormat k"
    using assms by (auto simp: deleteIssue_def respond_def split: if_splits)
  have held: "holdsIssue db k"
    using assms fmt
    by (auto simp: deleteIssue_def respond_def serverError_def Issue_findById_wf
        holdsIssue_iff_found split: option.splits)
  have "r_db (deleteIssue e db k) =
           db\<lparr>issues := deleteFirst (\<lambda>i. i_id i = map toLowerHex k) (issues db),
              comments := filter (\<lambda>c. c_issue c \<noteq> map toLowerHex k) (comments db)\<rparr>"
    using assms fmt
    by (auto simp: deleteIssue_def respond_def serverError_def Issue_findById_wf
        Issue_findByIdAndDelete_def Comment_deleteMany_def castObjectId_def split: option.splits)
  with fmt held show ?thesis by simp
qed

text \<open>
  The final routes cascade. In a store whose ids are unique, once deleteIssue of an
  id has succeeded (status 200) no comment of the store refers to the issue, no
  issue has the id, and listComments of the id, whenever asked, is answered 404
  "Issue not found".
\<close>

lemma deleteIssue_leaves_no_orphan_comments:
  assumes "uniqueIds db" and "r_status (deleteIssue e db k) = 200"
  shows "(\<forall>c \<in> set (comments (r_db (deleteIssue e db k))). c_issue c \<noteq> map toLowerHex k)
       \<and> \<not> holdsIssue (r_db (deleteIssue e db k)) k
       \<and> r_status (listComments e' (r_db (deleteIssue e db k)) k) = 404
       \<and> r_body (listComments e' (r_db (deleteIssue e db k)) k) = Failure ''Issue not found''"
proof -
  let ?db' = "r_db (deleteIssue e db k)"
  from assms(2) have fmt: "isObjectIdFormat k"
    and db': "?db' = db\<lparr>issues := deleteFirst (\<lambda>i. i_id i = map toLowerHex k) (issues db),
                     comments := filter (\<lambda>c. c_issue c \<noteq> map toLowerHex k) (comments db)\<rparr>"
    using deleteIssue_ok_result by blast+
  have gone: "\<not> holdsIssue ?db' k"
    using assms(1) by (simp add: db' holdsIssue_def uniqueIds_def deleteFirst_removes_id)
  have orphans: "\<forall>c \<in> set (comments ?db'). c_issue c \<noteq> map toLowerHex k"
    by (simp add: db')
  have "listComments e' ?db' k = respond 404 (Failure ''Issue not found'') ?db' [Q_Issue_findById k]"
    using fmt gone by (simp add: listComments_def Issue_findById_absent)
  with gone orphans show ?thesis
    by (simp add: respond_def)
qed

lemma deleteIssue_leaves_no_orphan_comments_example:
  "uniqueIds oneIssueDb \<and> r_status (deleteIssue env1 oneIssueDb issueA) = 200
   \<and> comments oneIssueDb = [noteC] \<and> c_issue noteC = issueA
   \<and> comments (r_db (deleteIssue env1 oneIssueDb issueA)) = []
   \<and> r_status (listComments env1 (r_db (deleteIssue env1 oneIssueDb issueA)) issueA) = 404"
proof -
  have a: "uniqueIds oneIssueDb"
    by (simp add: uniqueIds_def fixture_defs)
  have b: "r_status (deleteIssue env1 oneIssueDb issueA) = 200"
    by (simp add: deleteIssue_def respond_def Issue_findById_def Issue_findByIdAndDelete_def
        Comment_deleteMany_def id_defs fixture_defs)
  have c: "comments (r_db (deleteIssue env1 oneIssueDb issueA)) = []"
    by (simp add: deleteIssue_def respond_def Issue_findById_def Issue_findByIdAndDelete_def
        Comment_deleteMany_def id_defs fixture_defs)
  have d: "comments oneIssueDb = [noteC] \<and> c_issue noteC = issueA"
    by (simp add: fixture_defs)
  show ?thesis
    using a b c d deleteIssue_leaves_no_orphan_comments [OF a b, of env1] by simp
qed

text \<open>
  Claim C3 at a concrete request on the legacy routes (routes/issueRoutes.js, the
  module that both server files mount). The store holds one issue and one comment
  on it. DELETE /:id of the issue is answered 200 and the issue is gone, but the
  comment is still in the store and still refers to the deleted issue, and GET
  /:id/comments of the id is then answered 200 with that comment, not 404: the
  handler calls \<^verbatim>\<open>Issue.findByIdAndDelete\<close> only, and the legacy listing does not
  look the issue up.
\<close>

theorem legacy_deleteIssue_leaves_orphan_comments:
  "issues oneIssueDb = [bugX] \<and> i_id bugX = issueA
   \<and> comments oneIssueDb = [noteC] \<and> c_issue noteC = issueA
   \<and> r_status (legacy_deleteIssue env1 oneIssueDb issueA) = 200
   \<and> r_body (legacy_deleteIssue env1 oneIssueDb issueA) = Message ''Issue deleted''
   \<and> issues (r_db (legacy_deleteIssue env1 oneIssueDb issueA)) = []
   \<and> comments (r_db (legacy_deleteIssue env1 oneIssueDb issueA)) = [noteC]
   \<and> r_status (legacy_listComments env1 (r_db (legacy_deleteIssue env1 oneIssueDb issueA)) issueA)
       = 200
   \<and> commentsOf
        (r_body (legacy_listComments env1 (r_db (legacy_deleteIssue env1 oneIssueDb issueA)) issueA))
       = [noteC]"
  by (simp add: legacy_deleteIssue_def legacy_listComments_def Issue_findById_def
      Issue_findByIdAndDelete_def Comment_find_def newestFirst_def commentsOf_def
      commentView_def respond_def id_defs fixture_defs)


subsection \<open>Trimming\<close>

lemma trim_no_leading: "dropWhile isWhiteSpace (trim s) = trim s"
proof -
  let ?a = "dropWhile isWhiteSpace s"
  let ?b = "rev (dropWhile isWhiteSpace (rev ?a))"
  have split: "?a = ?b @ rev (takeWhile isWhiteSpace (rev ?a))"
    by (metis rev_append rev_rev_ident takeWhile_dropWhile_id)
  show ?thesis
  proof (cases "?b = []")
    case True
    then have "trim s = []"
      by (simp add: trim_def)
    then show ?thesis
      by (simp only: dropWhile.simps)
  next
    case False
    then have "hd ?b = hd ?a"
      using split by (metis hd_append2)
    moreover have "?a \<noteq> []"
    proof
      assume eq: "?a = []"
      have "?b = []"
        unfolding eq by simp
      with False show False ..
    qed
    then have "\<not> isWhiteSpace (hd ?a)"
      by (rule hd_dropWhile)
    ultimately have "\<not> isWhiteSpace (hd ?b)"
      by simp
    then show ?thesis
      unfolding trim_def by (simp add: dropWhile_eq_self_iff)
  qed
qed

lemma trim_idem [simp]: "trim (trim s) = trim s"
proof -
  have "trim (trim s) = rev (dropWhile isWhiteSpace (rev (trim s)))"
    by (simp add: trim_def [of "trim s"] trim_no_leading)
  also have "\<dots> = trim s"
    by (simp add: trim_def)
  finally show ?thesis .
qed

lemma find_appended:
  "k \<notin> f ` set xs \<Longrightarrow> f d = k \<Longrightarrow> find (\<lambda>i. f i = k) (xs @ [d]) = Some d"
  by (induction xs) auto

lemma holdsIssue_found:
  "holdsIssue db k \<Longrightarrow> \<exists>i. find (\<lambda>i. i_id i = map toLowerHex k) (issues db) = Some i"
  by (simp add: holdsIssue_iff_found)

subsection \<open>Adding a comment\<close>

text \<open>
  Claim C8, as the spec states it, fails: "abc" is the id of no issue, and addComment
  with that id and the content "hello" is answered 400 "Invalid issue ID format", not
  404; with a blank content it is answered the same format error, not the content
  error. The id is tested before the content and before the lookup.
\<close>

theorem addComment_malformed_id_is_a_format_error:
  "\<not> holdsIssue oneIssueDb ''abc''
   \<and> trim ''hello'' \<noteq> []
   \<and> addComment env1 oneIssueDb aliceId ''abc'' (Some ''hello'')
       = respond 400 (Failure ''Invalid issue ID format'') oneIssueDb []
   \<and> trim ''   '' = []
   \<and> addComment env1 oneIssueDb aliceId ''abc'' (Some ''   '')
       = respond 400 (Failure ''Invalid issue ID format'') oneIssueDb []"
  by (simp add: addComment_def holdsIssue_def trim_def isWhiteSpace_def id_defs fixture_defs)

text \<open>
  Claim C8, amended. addComment answers an id that is not of the ObjectId format with
  400 "Invalid issue ID format", whatever the content, and the store is unchanged.
  For an id of the format it answers 400 "Comment content is required" when the
  content is absent or empty after trimming, and the store is unchanged; otherwise
  it answers 404 "Issue not found" when no issue has the id; otherwise, for an acting
  user whose id is an ObjectId and a fresh comment id, it answers 201 and has
  appended to the store the comment with the trimmed content, the issue's id, the
  user's id and the clock's date, which it returns.
\<close>

theorem addComment_validates_finds_and_persists:
  "(\<not> isObjectIdFormat k \<longrightarrow>
      addComment e db u k c = respond 400 (Failure ''Invalid issue ID format'') db [])
 \<and> (isObjectIdFormat k \<longrightarrow>
      (c = None \<or> (\<exists>t. c = Some t \<and> trim t = []) \<longrightarrow>
            addComment e db u k c = respond 400 (Failure ''Comment content is required'') db [])
       \<and> (\<forall>t. c = Some t \<and> trim t \<noteq> [] \<and> \<not> holdsIssue db k \<longrightarrow>
            addComment e db u k c = respond 404 (Failure ''Issue not found'') db [Q_Issue_findById k])
       \<and> (\<forall>t a. c = Some t \<and> trim t \<noteq> [] \<and> holdsIssue db k \<and> castObjectId u = Some a
                \<and> newId e \<notin> set (map c_id (comments db)) \<longrightarrow>
            r_status (addComment e db u k c) = 201
          \<and> r_db (addComment e db u k c) =
              db\<lparr>comments := comments db @
                   [\<lparr>c_id = newId e, content = trim t, c_author = a, c_issue = map toLowerHex k,
                     c_createdAt = now e\<rparr>]\<rparr>
          \<and> r_body (addComment e db u k c) =
              CommentData (Some ''Comment added successfully'')
                (Some \<lparr>v_comment = \<lparr>c_id = newId e, content = trim t, c_author = a,
                                     c_issue = map toLowerHex k, c_createdAt = now e\<rparr>,
                       v_commenter = populate_author db a\<rparr>)))"
proof (intro conjI allI impI)
  assume "\<not> isObjectIdFormat k"
  then show "addComment e db u k c = respond 400 (Failure ''Invalid issue ID format'') db []"
    by (simp add: addComment_def)
next
  assume assms: "isObjectIdFormat k"
  assume "c = None \<or> (\<exists>t. c = Some t \<and> trim t = [])"
  then show "addComment e db u k c = respond 400 (Failure ''Comment content is required'') db []"
    using assms by (auto simp: addComment_def)
next
  fix t assume assms: "isObjectIdFormat k"
  assume "c = Some t \<and> trim t \<noteq> [] \<and> \<not> holdsIssue db k"
  then show "addComment e db u k c = respond 404 (Failure ''Issue not found'') db [Q_Issue_findById k]"
    using assms by (auto simp: addComment_def Issue_findById_absent)
next
  fix t a
  assume assms: "isObjectIdFormat k"
  assume h: "c = Some t \<and> trim t \<noteq> [] \<and> holdsIssue db k \<and> castObjectId u = Some a
                \<and> newId e \<notin> set (map c_id (comments db))"
  let ?doc = "\<lparr>c_id = newId e, content = trim t, c_author = a, c_issue = map toLowerHex k,
                     c_createdAt = now e\<rparr>"
  let ?db' = "db\<lparr>comments := comments db @ [?doc]\<rparr>"
  from h have "holdsIssue db k"
    by simp
  then obtain i where "find (\<lambda>i. i_id i = map toLowerHex k) (issues db) = Some i"
    using holdsIssue_found by blast
  then have found: "Issue_findById db k = Inr (Some i)"
    using assms by (simp add: Issue_findById_wf)
  have created: "Comment_create e db (Some (trim t)) u k = Inr (?doc, ?db')"
    using h assms by (simp add: Comment_create_def castObjectId_def Let_def)
  have reread: "Comment_findById ?db' (newId e) = Some ?doc"
    using h by (simp add: Comment_findById_def find_appended)
  have all: "addComment e db u k c =
     respond 201 (CommentData (Some ''Comment added successfully'') (Some (commentView ?db' ?doc))) ?db'
        [Q_Issue_findById k, Q_Comment_create, Q_Comment_findById (newId e)]"
    using h assms found created reread by (auto simp: addComment_def)
  show "r_status (addComment e db u k c) = 201"
    by (simp add: all respond_def)
  show "r_db (addComment e db u k c) = ?db'"
    by (simp add: all respond_def)
  show "r_body (addComment e db u k c) =
              CommentData (Some ''Comment added successfully'')
                (Some \<lparr>v_comment = ?doc, v_commenter = populate_author db a\<rparr>)"
    by (simp add: all respond_def commentView_def populate_author_def)
qed

theorem addComment_validates_finds_and_persists_witness:
  "\<not> isObjectIdFormat ''abc'' \<and> isObjectIdFormat issueA \<and> isObjectIdFormat issueB
   \<and> addComment env1 oneIssueDb aliceId ''abc'' (Some '' hello '')
       = respond 400 (Failure ''Invalid issue ID format'') oneIssueDb []
   \<and> addComment env1 oneIssueDb aliceId issueA (Some ''   '')
       = respond 400 (Failure ''Comment content is required'') oneIssueDb []
   \<and> addComment env1 oneIssueDb aliceId issueB (Some '' hello '')
       = respond 404 (Failure ''Issue not found'') oneIssueDb [Q_Issue_findById issueB]
   \<and> r_status (addComment env1 oneIssueDb aliceId issueA (Some '' hello '')) = 201
   \<and> comments (r_db (addComment env1 oneIssueDb aliceId issueA (Some '' hello '')))
       = [noteC, \<lparr>c_id = issueB, content = ''hello'', c_author = aliceId, c_issue = issueA,
                  c_createdAt = 5000\<rparr>]"
proof -
  have a: "isObjectIdFormat issueA"
    by (simp add: id_defs fixture_defs)
  have b: "isObjectIdFormat issueB"
    by (simp add: id_defs fixture_defs)
  have m: "\<not> isObjectIdFormat ''abc''"
    by (simp add: id_defs)
  have t1: "trim ''   '' = []"
    by (simp add: trim_def isWhiteSpace_def)
  have t2: "trim '' hello '' = ''hello''"
    by (simp add: trim_def isWhiteSpace_def)
  have h1: "\<not> holdsIssue oneIssueDb issueB"
    by (simp add: holdsIssue_def id_defs fixture_defs)
  have h2: "holdsIssue oneIssueDb issueA"
    by (simp add: holdsIssue_def id_defs fixture_defs)
  have u: "castObjectId aliceId = Some aliceId"
    by (simp add: id_defs fixture_defs)
  have fresh: "newId env1 \<notin> set (map c_id (comments oneIssueDb))"
    by (simp add: fixture_defs)
  have low: "map toLowerHex issueA = issueA"
    by (simp add: id_defs fixture_defs)
  have e: "newId env1 = issueB \<and> now env1 = 5000 \<and> comments oneIssueDb = [noteC]"
    by (simp add: env1_def oneIssueDb_def)
  show ?thesis
    using a b m t1 t2 h1 h2 u fresh low e
      addComment_validates_finds_and_persists [of "''abc''" env1 oneIssueDb aliceId "Some '' hello ''"]
      addComment_validates_finds_and_persists [of issueA env1 oneIssueDb aliceId "Some ''   ''"]
      addComment_validates_finds_and_persists [of issueB env1 oneIssueDb aliceId "Some '' hello ''"]
      addComment_validates_finds_and_persists [of issueA env1 oneIssueDb aliceId "Some '' hello ''"]
    by simp
qed

text \<open>
  The legacy route looks the issue up first and leaves the content to the Comment
  schema: a blank content is answered 404 for an id without an issue and 400 with
  the schema's validation error for a stored issue, and an id that is no ObjectId is
  the cast error of the lookup, answered 400.
\<close>

lemma legacy_addComment_looks_up_first:
  "legacy_addComment env1 oneIssueDb aliceId issueB (Some ''   '')
     = respond 404 (Failure ''Issue not found'') oneIssueDb [Q_Issue_findById issueB]
   \<and> legacy_addComment env1 oneIssueDb aliceId issueA (Some ''   '')
     = respond 400 (Thrown (ValidationError [ContentRequired])) oneIssueDb
         [Q_Issue_findById issueA, Q_Comment_create]
   \<and> legacy_addComment env1 oneIssueDb aliceId ''abc'' (Some ''hello'')
     = respond 400 (Thrown CastError) oneIssueDb [Q_Issue_findById ''abc'']"
  by (simp add: legacy_addComment_def Issue_findById_def Comment_create_def Let_def trim_def
      isWhiteSpace_def id_defs fixture_defs)

subsection \<open>Lists\<close>

lemma descending_newestFirst: "descending date (newestFirst date xs)"
proof -
  have "sorted (map (\<lambda>x. - date x) (sort_key (\<lambda>x. - date x) xs))"
    by (rule sorted_sort_key)
  then show ?thesis
    by (simp add: descending_def newestFirst_def sorted_map)
qed

lemma mset_newestFirst: "mset (newestFirst date xs) = mset xs"
  by (simp add: newestFirst_def)

lemma descending_map: "(\<And>x. date (h x) = date x) \<Longrightarrow> descending date (map h xs) = descending date xs"
  by (simp add: descending_def sorted_wrt_map)

lemma v_issue_withCommentCount:
  "map (v_issue \<circ> withCommentCount e db) xs = map (hydrate IssueSchema_final) xs"
  by (induction xs) (simp_all add: withCommentCount_def populated_def)

lemma v_comment_commentView: "map (v_comment \<circ> commentView db) xs = xs"
  by (induction xs) (simp_all add: commentView_def)

lemma issuesOf_listAllIssues:
  "issuesOf (r_body (listAllIssues e db)) =
     map (hydrate IssueSchema_final) (newestFirst createdAt (issues db))"
  by (simp add: listAllIssues_def Issue_find_def respond_def issuesOf_def v_issue_withCommentCount)

lemma issuesOf_listMyIssues:
  "castObjectId u = Some a \<Longrightarrow>
   issuesOf (r_body (listMyIssues e db u)) =
     map (hydrate IssueSchema_final) (newestFirst createdAt (filter (\<lambda>i. author i = a) (issues db)))"
  by (simp add: listMyIssues_def Issue_find_def respond_def issuesOf_def v_issue_withCommentCount)

lemma commentsOf_listComments:
  "r_status (listComments e db k) = 200 \<Longrightarrow>
   commentsOf (r_body (listComments e db k)) =
     newestFirst c_createdAt (filter (\<lambda>c. c_issue c = map toLowerHex k) (comments db))"
  by (auto simp add: listComments_def Issue_findById_wf Comment_find_def castObjectId_def respond_def
      serverError_def commentsOf_def v_comment_commentView split: if_splits option.splits)

text \<open>
  Claim C9. listAllIssues answers 200 with every stored issue, each once, newest
  first. For an acting user whose id is an ObjectId, listMyIssues answers 200 with
  exactly the stored issues whose author is that user, newest first. A listComments
  that succeeds lists exactly the comments of the issue, newest first. An issue is
  listed as the final schema reads it: the stored issue, with the empty string for a
  description or an assignee that it lacks; in a store whose issues all have both,
  as the final routes write them, the issues listed are the stored issues.
\<close>

theorem lists_are_newest_first_and_complete:
  "r_status (listAllIssues e db) = 200
 \<and> descending createdAt (issuesOf (r_body (listAllIssues e db)))
 \<and> mset (issuesOf (r_body (listAllIssues e db))) = mset (map (hydrate IssueSchema_final) (issues db))
 \<and> mset (map i_id (issuesOf (r_body (listAllIssues e db)))) = mset (map i_id (issues db))
 \<and> (storedInFull db \<longrightarrow> mset (issuesOf (r_body (listAllIssues e db))) = mset (issues db))
 \<and> (\<forall>a. castObjectId u = Some a \<longrightarrow>
       r_status (listMyIssues e db u) = 200
     \<and> descending createdAt (issuesOf (r_body (listMyIssues e db u)))
     \<and> mset (issuesOf (r_body (listMyIssues e db u)))
         = mset (map (hydrate IssueSchema_final) (filter (\<lambda>i. author i = a) (issues db)))
     \<and> mset (map i_id (issuesOf (r_body (listMyIssues e db u))))
         = mset (map i_id (filter (\<lambda>i. author i = a) (issues db)))
     \<and> (storedInFull db \<longrightarrow>
          mset (issuesOf (r_body (listMyIssues e db u))) = mset (filter (\<lambda>i. author i = a) (issues db))))
 \<and> (r_status (listComments e db k) = 200 \<longrightarrow>
       descending c_createdAt (commentsOf (r_body (listComments e db k)))
     \<and> mset (commentsOf (r_body (listComments e db k)))
         = mset (filter (\<lambda>c. c_issue c = map toLowerHex k) (comments db)))"
proof (intro conjI allI impI)
  show "r_status (listAllIssues e db) = 200"
    by (simp add: listAllIssues_def Issue_find_def respond_def)
  show "descending createdAt (issuesOf (r_body (listAllIssues e db)))"
    by (simp add: issuesOf_listAllIssues descending_map descending_newestFirst)
  show "mset (issuesOf (r_body (listAllIssues e db))) = mset (map (hydrate IssueSchema_final) (issues db))"
    by (simp add: issuesOf_listAllIssues mset_newestFirst)
  show "mset (map i_id (issuesOf (r_body (listAllIssues e db)))) = mset (map i_id (issues db))"
    by (simp add: issuesOf_listAllIssues mset_newestFirst comp_def)
  {
    assume "storedInFull db"
    then have "map (hydrate IssueSchema_final) (issues db) = issues db"
      unfolding storedInFull_def by (rule hydrate_stored_in_full)
    then have "mset (map (hydrate IssueSchema_final) (issues db)) = mset (issues db)"
      by (simp only:)
    then show "mset (issuesOf (r_body (listAllIssues e db))) = mset (issues db)"
      by (simp add: issuesOf_listAllIssues mset_newestFirst)
  }
next
  fix a assume a: "castObjectId u = Some a"
  then show "r_status (listMyIssues e db u) = 200"
    by (simp add: listMyIssues_def Issue_find_def respond_def)
  from a show "descending createdAt (issuesOf (r_body (listMyIssues e db u)))"
    by (simp add: issuesOf_listMyIssues descending_map descending_newestFirst)
  from a show "mset (issuesOf (r_body (listMyIssues e db u)))
         = mset (map (hydrate IssueSchema_final) (filter (\<lambda>i. author i = a) (issues db)))"
    by (simp add: issuesOf_listMyIssues mset_newestFirst)
  from a show "mset (map i_id (issuesOf (r_body (listMyIssues e db u))))
         = mset (map i_id (filter (\<lambda>i. author i = a) (issues db)))"
    by (simp add: issuesOf_listMyIssues mset_newestFirst comp_def)
  {
    assume "storedInFull db"
    then have "list_all (\<lambda>i. description i \<noteq> None \<and> assignee i \<noteq> None)
                 (filter (\<lambda>i. author i = a) (issues db))"
      by (simp add: storedInFull_def list_all_iff)
    then have "map (hydrate IssueSchema_final) (filter (\<lambda>i. author i = a) (issues db))
                 = filter (\<lambda>i. author i = a) (issues db)"
      by (rule hydrate_stored_in_full)
    then have "mset (map (hydrate IssueSchema_final) (filter (\<lambda>i. author i = a) (issues db)))
                 = mset (filter (\<lambda>i. author i = a) (issues db))"
      by (simp only:)
    with a show "mset (issuesOf (r_body (listMyIssues e db u)))
                 = mset (filter (\<lambda>i. author i = a) (issues db))"
      by (simp add: issuesOf_listMyIssues mset_newestFirst)
  }
next
  assume ok: "r_status (listComments e db k) = 200"
  then show "descending c_createdAt (commentsOf (r_body (listComments e db k)))"
    by (simp add: commentsOf_listComments descending_newestFirst)
  from ok show "mset (commentsOf (r_body (listComments e db k)))
         = mset (filter (\<lambda>c. c_issue c = map toLowerHex k) (comments db))"
    by (simp add: commentsOf_listComments mset_newestFirst)
qed

theorem lists_are_newest_first_and_complete_witness:
  "castObjectId aliceId = Some aliceId
   \<and> storedInFull twoIssueDb
   \<and> r_status (listComments env1 twoIssueDb issueA) = 200
   \<and> issuesOf (r_body (listAllIssues env1 twoIssueDb)) = [bugY, bugX]
   \<and> descending createdAt [bugY, bugX]
   \<and> issuesOf (r_body (listMyIssues env1 twoIssueDb aliceId)) = [bugX]
   \<and> commentsOf (r_body (listComments env1 twoIssueDb issueA)) = [noteD, noteC]
   \<and> descending c_createdAt [noteD, noteC]"
proof -
  have u: "castObjectId aliceId = Some aliceId"
    by (simp add: id_defs fixture_defs)
  have ok: "r_status (listComments env1 twoIssueDb issueA) = 200"
    by (simp add: listComments_def Issue_findById_def Comment_find_def respond_def id_defs
        fixture_defs)
  have full: "storedInFull twoIssueDb"
    by (simp add: storedInFull_def twoIssueDb_def bugX_def bugY_def)
  have hx: "hydrate IssueSchema_final bugX = bugX"
    by (simp add: hydrate_def bugX_def)
  have hy: "hydrate IssueSchema_final bugY = bugY"
    by (simp add: hydrate_def bugY_def)
  have "newestFirst createdAt (issues twoIssueDb) = [bugY, bugX]"
    by (simp add: newestFirst_def twoIssueDb_def bugX_def bugY_def)
  then have l1: "issuesOf (r_body (listAllIssues env1 twoIssueDb)) = [bugY, bugX]"
    by (simp add: issuesOf_listAllIssues hx hy)
  have "newestFirst createdAt (filter (\<lambda>i. author i = aliceId) (issues twoIssueDb)) = [bugX]"
    by (simp add: newestFirst_def twoIssueDb_def bugX_def bugY_def aliceId_def bobId_def)
  then have l2: "issuesOf (r_body (listMyIssues env1 twoIssueDb aliceId)) = [bugX]"
    by (simp add: issuesOf_listMyIssues [OF u] hx)
  have low: "map toLowerHex issueA = issueA"
    by (simp add: id_defs fixture_defs)
  have l3: "commentsOf (r_body (listComments env1 twoIssueDb issueA)) = [noteD, noteC]"
    unfolding commentsOf_listComments [OF ok] low
    by (simp add: newestFirst_def twoIssueDb_def noteC_def noteD_def)
  show ?thesis
    using u full ok l1 l2 l3
      lists_are_newest_first_and_complete [of env1 twoIssueDb aliceId issueA]
    by simp
qed

subsection \<open>Updating an issue\<close>

text \<open>
  An update writes the paths the cast body has and the date of the update; the id,
  the creation date and every path the body does not have stay as they were. So the
  author stays when the body has none.
\<close>

lemma applyUpdate_frame:
  "i_id (applyUpdate f t i) = i_id i
   \<and> createdAt (applyUpdate f t i) = createdAt i
   \<and> updatedAt (applyUpdate f t i) = t
   \<and> (f_title f = None \<longrightarrow> title (applyUpdate f t i) = title i)
   \<and> (f_description f = None \<longrightarrow> description (applyUpdate f t i) = description i)
   \<and> (f_status f = None \<longrightarrow> status (applyUpdate f t i) = status i)
   \<and> (f_priority f = None \<longrightarrow> priority (applyUpdate f t i) = priority i)
   \<and> (f_assignee f = None \<longrightarrow> assignee (applyUpdate f t i) = assignee i)
   \<and> (f_author f = None \<longrightarrow> author (applyUpdate f t i) = author i)
   \<and> (\<forall>a. f_author f = Some a \<longrightarrow> author (applyUpdate f t i) = a)"
  by (simp add: applyUpdate_def)

text \<open>
  Claim C1 at a concrete request. The stored issue was created by Alice. PUT /:id with
  the body \<^verbatim>\<open>{ "author": "507f191e810c19729de860ea" }\<close> is answered 200, and the
  stored issue then has Bob's id as its author: the body goes to
  \<^verbatim>\<open>findByIdAndUpdate\<close> whole, and \<open>author\<close> is a path of the schema like any other.
\<close>

theorem updateIssue_overwrites_author:
  "map author (issues oneIssueDb) = [aliceId]
   \<and> r_status (updateIssue env1 oneIssueDb issueA authorPatch) = 200
   \<and> map author (issues (r_db (updateIssue env1 oneIssueDb issueA authorPatch))) = [bobId]
   \<and> aliceId \<noteq> bobId"
  by (simp add: updateIssue_def Issue_findById_def Issue_findByIdAndUpdate_def castUpdate_def
      updateValidators_def validate_description_def validate_assignee_def applyUpdate_def
      respond_def id_defs fixture_defs)

subsection \<open>Validation\<close>

lemmas validator_defs = validate_title_def validate_description_def validate_status_def
  validate_priority_def validate_assignee_def validate_author_def exceeds_def falls_short_def

lemmas spec_defs = titleOk_def descriptionOk_def statusOk_def priorityOk_def assigneeOk_def
  whenPresent_def

lemma title_final: "(validate_title IssueSchema_final (Some (trim t)) = []) = titleOk t"
  by (auto simp: validator_defs IssueSchema_final_def titleOk_def)

lemma description_final:
  "(validate_description IssueSchema_final (map_option trim d) = []) = whenPresent descriptionOk d"
  by (auto simp: validator_defs IssueSchema_final_def spec_defs split: option.splits)

lemma status_final: "(validate_status IssueSchema_final s = []) = statusOk s"
  by (auto simp: validator_defs IssueSchema_final_def statusOk_def)

lemma priority_final: "(validate_priority IssueSchema_final s = []) = priorityOk s"
  by (auto simp: validator_defs IssueSchema_final_def priorityOk_def)

lemma assignee_final:
  "(validate_assignee IssueSchema_final (map_option trim d) = []) = whenPresent assigneeOk d"
  by (auto simp: validator_defs IssueSchema_final_def spec_defs split: option.splits)


lemma castUpdate_fields:
  "castUpdate f = Inr f' \<Longrightarrow>
     f_title f' = map_option trim (f_title f)
   \<and> f_description f' = map_option trim (f_description f)
   \<and> f_status f' = f_status f
   \<and> f_priority f' = f_priority f
   \<and> f_assignee f' = map_option trim (f_assignee f)
   \<and> f_author f' = (case f_author f of None \<Rightarrow> None | Some x \<Rightarrow> castObjectId x)"
  by (cases "f_author f") (auto simp: castUpdate_def split: option.splits)

lemma updateValidators_final:
  assumes "castUpdate f = Inr f'"
  shows "(updateValidators IssueSchema_final f' = []) = validPatch f"
proof -
  note c = castUpdate_fields [OF assms]
  have t: "((case f_title f' of None \<Rightarrow> [] | Some t \<Rightarrow> validate_title IssueSchema_final (Some t)) = [])
           = whenPresent titleOk (f_title f)"
    by (cases "f_title f") (simp_all add: c whenPresent_def title_final)
  have s: "((case f_status f' of None \<Rightarrow> [] | Some t \<Rightarrow> validate_status IssueSchema_final t) = [])
           = whenPresent statusOk (f_status f)"
    by (cases "f_status f") (simp_all add: c whenPresent_def status_final)
  have p: "((case f_priority f' of None \<Rightarrow> [] | Some t \<Rightarrow> validate_priority IssueSchema_final t) = [])
           = whenPresent priorityOk (f_priority f)"
    by (cases "f_priority f") (simp_all add: c whenPresent_def priority_final)
  have d: "(validate_description IssueSchema_final (f_description f') = [])
           = whenPresent descriptionOk (f_description f)"
    by (simp add: c description_final)
  have a: "(validate_assignee IssueSchema_final (f_assignee f') = [])
           = whenPresent assigneeOk (f_assignee f)"
    by (simp add: c assignee_final)
  show ?thesis
    unfolding updateValidators_def validPatch_def append_is_Nil_conv t s p d a ..
qed


lemma create_case:
  "(case (errs, t, a) of ([], Some t', Some a') \<Rightarrow> F t' a' | _ \<Rightarrow> G) =
   (if errs = [] then (case t of Some t' \<Rightarrow> (case a of Some a' \<Rightarrow> F t' a' | None \<Rightarrow> G) | None \<Rightarrow> G)
    else G)"
  by (auto split: list.splits option.splits)


lemma create_errors_final:
  "(validate_title IssueSchema_final (map_option trim (f_title f))
    @ validate_description IssueSchema_final
        (case f_description f of None \<Rightarrow> description_default IssueSchema_final | Some x \<Rightarrow> Some (trim x))
    @ validate_status IssueSchema_final
        (case f_status f of None \<Rightarrow> status_default IssueSchema_final | Some x \<Rightarrow> x)
    @ validate_priority IssueSchema_final
        (case f_priority f of None \<Rightarrow> priority_default IssueSchema_final | Some x \<Rightarrow> x)
    @ validate_assignee IssueSchema_final
        (case f_assignee f of None \<Rightarrow> assignee_default IssueSchema_final | Some x \<Rightarrow> Some (trim x))
    @ validate_author (f_author f) = [])
   = (validDraft f \<and> (\<exists>u a. f_author f = Some u \<and> castObjectId u = Some a))"
proof -
  have t: "(validate_title IssueSchema_final (map_option trim (f_title f)) = [])
           = (case f_title f of None \<Rightarrow> False | Some t \<Rightarrow> titleOk t)"
    by (cases "f_title f") (simp_all add: title_final, simp add: validate_title_def)
  have d: "(validate_description IssueSchema_final
        (case f_description f of None \<Rightarrow> description_default IssueSchema_final | Some x \<Rightarrow> Some (trim x)) = [])
           = whenPresent descriptionOk (f_description f)"
    by (cases "f_description f")
       (simp_all add: whenPresent_def descriptionOk_def validator_defs IssueSchema_final_def)
  have s: "(validate_status IssueSchema_final
        (case f_status f of None \<Rightarrow> status_default IssueSchema_final | Some x \<Rightarrow> x) = [])
           = whenPresent statusOk (f_status f)"
    by (cases "f_status f")
       (simp_all add: whenPresent_def status_final, simp add: statusOk_def IssueSchema_final_def)
  have p: "(validate_priority IssueSchema_final
        (case f_priority f of None \<Rightarrow> priority_default IssueSchema_final | Some x \<Rightarrow> x) = [])
           = whenPresent priorityOk (f_priority f)"
    by (cases "f_priority f")
       (simp_all add: whenPresent_def priority_final, simp add: priorityOk_def IssueSchema_final_def)
  have a: "(validate_assignee IssueSchema_final
        (case f_assignee f of None \<Rightarrow> assignee_default IssueSchema_final | Some x \<Rightarrow> Some (trim x)) = [])
           = whenPresent assigneeOk (f_assignee f)"
    by (cases "f_assignee f")
       (simp_all add: whenPresent_def assigneeOk_def validator_defs IssueSchema_final_def)
  have u: "(validate_author (f_author f) = []) = (\<exists>u a. f_author f = Some u \<and> castObjectId u = Some a)"
    by (cases "f_author f") (auto simp add: validate_author_def)
  show ?thesis
    unfolding append_is_Nil_conv t d s p a u validDraft_def by blast
qed

lemma Issue_create_final_invalid:
  assumes "\<not> (validDraft f \<and> (\<exists>u a. f_author f = Some u \<and> castObjectId u = Some a))"
  shows "\<exists>errs. errs \<noteq> [] \<and> Issue_create IssueSchema_final e db f = Inl (ValidationError errs)"
proof -
  define errs where "errs = validate_title IssueSchema_final (map_option trim (f_title f))
    @ validate_description IssueSchema_final
        (case f_description f of None \<Rightarrow> description_default IssueSchema_final | Some x \<Rightarrow> Some (trim x))
    @ validate_status IssueSchema_final
        (case f_status f of None \<Rightarrow> status_default IssueSchema_final | Some x \<Rightarrow> x)
    @ validate_priority IssueSchema_final
        (case f_priority f of None \<Rightarrow> priority_default IssueSchema_final | Some x \<Rightarrow> x)
    @ validate_assignee IssueSchema_final
        (case f_assignee f of None \<Rightarrow> assignee_default IssueSchema_final | Some x \<Rightarrow> Some (trim x))
    @ validate_author (f_author f)"
  have ne: "errs \<noteq> []"
    unfolding errs_def using assms create_errors_final [of f] by blast
  have "Issue_create IssueSchema_final e db f = Inl (ValidationError errs)"
    unfolding Issue_create_def Let_def create_case errs_def [symmetric] using ne by simp
  with ne show ?thesis by blast
qed

lemma preSave_storedIssue: "preSave (storedIssue e a f) = storedIssue e a f"
  by (cases "f_title f"; cases "f_assignee f") (simp_all add: preSave_def storedIssue_def trimmedOr_def)

lemma Issue_create_final_valid:
  assumes "validDraft f" and "f_author f = Some u" and "castObjectId u = Some a"
    and "newId e \<notin> set (map i_id (issues db))"
  shows "Issue_create IssueSchema_final e db f =
           Inr (storedIssue e a f, db\<lparr>issues := issues db @ [storedIssue e a f]\<rparr>)"
proof -
  from assms(1) obtain t where t: "f_title f = Some t"
    by (cases "f_title f") (simp_all add: validDraft_def)
  define errs where "errs = validate_title IssueSchema_final (map_option trim (f_title f))
    @ validate_description IssueSchema_final
        (case f_description f of None \<Rightarrow> description_default IssueSchema_final | Some x \<Rightarrow> Some (trim x))
    @ validate_status IssueSchema_final
        (case f_status f of None \<Rightarrow> status_default IssueSchema_final | Some x \<Rightarrow> x)
    @ validate_priority IssueSchema_final
        (case f_priority f of None \<Rightarrow> priority_default IssueSchema_final | Some x \<Rightarrow> x)
    @ validate_assignee IssueSchema_final
        (case f_assignee f of None \<Rightarrow> assignee_default IssueSchema_final | Some x \<Rightarrow> Some (trim x))
    @ validate_author (f_author f)"
  have errs: "errs = []"
    unfolding errs_def using assms(1,2,3) create_errors_final [of f] by blast
  have doc: "\<lparr>i_id = newId e, title = trim t,
       description = (case f_description f of None \<Rightarrow> description_default IssueSchema_final | Some x \<Rightarrow> Some (trim x)),
       status = (case f_status f of None \<Rightarrow> status_default IssueSchema_final | Some x \<Rightarrow> x),
       priority = (case f_priority f of None \<Rightarrow> priority_default IssueSchema_final | Some x \<Rightarrow> x),
       assignee = (case f_assignee f of None \<Rightarrow> assignee_default IssueSchema_final | Some x \<Rightarrow> Some (trim x)),
       author = a, createdAt = now e, updatedAt = now e\<rparr> = storedIssue e a f"
    by (simp add: storedIssue_def trimmedOr_def givenOr_def t IssueSchema_final_def
        split: option.splits)
  have hook: "pre_save_hook IssueSchema_final"
    by (simp add: IssueSchema_final_def)
  show ?thesis
    unfolding Issue_create_def Let_def create_case errs_def [symmetric]
    using assms(2,3,4) by (simp add: errs t doc hook preSave_storedIssue)
qed

lemma validDraft_author [simp]: "validDraft (f\<lparr>f_author := x\<rparr>) = validDraft f"
  by (simp add: validDraft_def)

lemma storedIssue_author [simp]: "storedIssue e a (f\<lparr>f_author := x\<rparr>) = storedIssue e a f"
  by (simp add: storedIssue_def)

lemma hydrate_storedIssue [simp]: "hydrate sch (storedIssue e a f) = storedIssue e a f"
  by (simp add: hydrate_def storedIssue_def)


lemma toLowerHex_lower: "isLowerHexDigit c \<Longrightarrow> toLowerHex c = c \<and> isHexDigit c"
  by (auto simp: isLowerHexDigit_def toLowerHex_def isHexDigit_def)

lemma lowercase_id_cast:
  assumes "isLowercaseObjectId s"
  shows "isObjectIdFormat s" and "map toLowerHex s = s" and "castObjectId s = Some s"
proof -
  have all: "\<forall>c \<in> set s. toLowerHex c = c \<and> isHexDigit c"
    using assms by (simp add: isLowercaseObjectId_def list_all_iff toLowerHex_lower)
  show fmt: "isObjectIdFormat s"
    using assms all by (simp add: isLowercaseObjectId_def isObjectIdFormat_def list_all_iff)
  show low: "map toLowerHex s = s"
    using all by (simp add: map_idI)
  show "castObjectId s = Some s"
    by (simp add: castObjectId_def fmt low)
qed

lemma createIssue_valid:
  assumes "validDraft f" and "castObjectId u = Some a" and "isLowercaseObjectId (newId e)"
    and "newId e \<notin> set (map i_id (issues db))"
  shows "createIssue e db u f =
           respond 201
             (IssueData (Some ''Issue created successfully'')
                (Some (populated IssueSchema_final e (db\<lparr>issues := issues db @ [storedIssue e a f]\<rparr>)
                         (storedIssue e a f))))
             (db\<lparr>issues := issues db @ [storedIssue e a f]\<rparr>)
             [Q_Issue_create, Q_Issue_findById (newId e)]"
proof -
  let ?doc = "storedIssue e a f"
  let ?db' = "db\<lparr>issues := issues db @ [?doc]\<rparr>"
  have created: "Issue_create IssueSchema_final e db (f\<lparr>f_author := Some u\<rparr>) = Inr (?doc, ?db')"
    using Issue_create_final_valid [of "f\<lparr>f_author := Some u\<rparr>" u a e db] assms by simp
  have id: "i_id ?doc = newId e"
    by (simp add: storedIssue_def)
  have reread: "Issue_findById ?db' (newId e) = Inr (Some ?doc)"
    using assms(3,4) by (simp add: Issue_findById_wf lowercase_id_cast find_appended id)
  show ?thesis
    by (simp add: createIssue_def created id reread)
qed


subsection \<open>Creating an issue\<close>

text \<open>
  Claim C2, amended. For every valid draft, an acting user whose id is an ObjectId
  and a new id the driver generates, createIssue answers 201 and appends to the
  store the draft trimmed and defaulted with the acting user as its author,
  whatever author the request gave; getIssue of the new id, whenever asked, answers
  200 with that stored document.
\<close>

theorem createIssue_then_getIssue:
  assumes "validDraft f" and "castObjectId u = Some a" and "isLowercaseObjectId (newId e)"
    and "newId e \<notin> set (map i_id (issues db))"
  shows "r_status (createIssue e db u f) = 201
       \<and> issues (r_db (createIssue e db u f)) = issues db @ [storedIssue e a f]
       \<and> author (storedIssue e a f) = a
       \<and> r_status (getIssue e' (r_db (createIssue e db u f)) (newId e)) = 200
       \<and> issueOf (r_body (getIssue e' (r_db (createIssue e db u f)) (newId e)))
           = Some (storedIssue e a f)"
proof -
  let ?doc = "storedIssue e a f"
  let ?db' = "db\<lparr>issues := issues db @ [?doc]\<rparr>"
  note c = createIssue_valid [OF assms]
  have db': "r_db (createIssue e db u f) = ?db'"
    by (simp add: c respond_def)
  have id: "i_id ?doc = newId e"
    by (simp add: storedIssue_def)
  have found: "Issue_findById ?db' (newId e) = Inr (Some ?doc)"
    using assms(3,4) by (simp add: Issue_findById_wf lowercase_id_cast find_appended id)
  have get: "getIssue e' ?db' (newId e) =
          respond 200 (IssueData None (Some (issueWithVirtuals e' ?db' ?doc))) ?db' [Q_Issue_findById (newId e)]"
    using assms(3) by (simp add: getIssue_def lowercase_id_cast found)
  show ?thesis
    unfolding db' get
    by (simp add: c respond_def issueOf_def issueWithVirtuals_def populated_def)
       (simp add: storedIssue_def)
qed

text \<open>
  Claim C2, as the spec states it, fails: the draft with the title "  Bug X  " is
  valid, and the issue read back has the title "Bug X", not the draft's.
\<close>

theorem created_title_is_trimmed:
  "validDraft paddedDraft
   \<and> f_title paddedDraft = Some ''  Bug X  ''
   \<and> r_status (createIssue env1 emptyDb aliceId paddedDraft) = 201
   \<and> map_option title
        (issueOf (r_body (getIssue env1 (r_db (createIssue env1 emptyDb aliceId paddedDraft)) issueB)))
      = Some ''Bug X''"
proof -
  have t: "trim ''  Bug X  '' = ''Bug X''"
    by (simp add: trim_def isWhiteSpace_def)
  have v: "validDraft paddedDraft"
    by (simp add: validDraft_def paddedDraft_def emptyPatch_def titleOk_def t whenPresent_def)
  have u: "castObjectId aliceId = Some aliceId"
    by (simp add: id_defs fixture_defs)
  have n: "isLowercaseObjectId (newId env1)"
    by (simp add: isLowercaseObjectId_def isLowerHexDigit_def fixture_defs)
  have fr: "newId env1 \<notin> set (map i_id (issues emptyDb))"
    by (simp add: fixture_defs)
  note c = createIssue_valid [OF v u n fr]
  have id: "newId env1 = issueB"
    by (simp add: env1_def)
  have g: "getIssue env1 (emptyDb\<lparr>issues := issues emptyDb @ [storedIssue env1 aliceId paddedDraft]\<rparr>) issueB
       = respond 200 (IssueData None (Some (issueWithVirtuals env1
            (emptyDb\<lparr>issues := issues emptyDb @ [storedIssue env1 aliceId paddedDraft]\<rparr>)
            (storedIssue env1 aliceId paddedDraft))))
           (emptyDb\<lparr>issues := issues emptyDb @ [storedIssue env1 aliceId paddedDraft]\<rparr>)
           [Q_Issue_findById issueB]"
    using n by (simp add: getIssue_def id lowercase_id_cast Issue_findById_wf emptyDb_def
        storedIssue_def env1_def)
  have r: "r_db (createIssue env1 emptyDb aliceId paddedDraft)
             = emptyDb\<lparr>issues := issues emptyDb @ [storedIssue env1 aliceId paddedDraft]\<rparr>"
    by (simp add: c respond_def)
  have s1: "r_status (createIssue env1 emptyDb aliceId paddedDraft) = 201"
    by (simp add: c respond_def)
  have ttl: "title (storedIssue env1 aliceId paddedDraft) = ''Bug X''"
    by (simp add: storedIssue_def trimmedOr_def paddedDraft_def t)
  have s2: "map_option title
        (issueOf (r_body (getIssue env1 (r_db (createIssue env1 emptyDb aliceId paddedDraft)) issueB)))
      = Some ''Bug X''"
    unfolding r g by (simp add: respond_def issueOf_def issueWithVirtuals_def populated_def ttl)
  have s3: "f_title paddedDraft = Some ''  Bug X  ''"
    by (simp add: paddedDraft_def)
  from v s1 s2 s3 show ?thesis
    by blast
qed

theorem createIssue_then_getIssue_witness:
  "validDraft paddedDraft \<and> castObjectId aliceId = Some aliceId
   \<and> isLowercaseObjectId (newId env1) \<and> newId env1 \<notin> set (map i_id (issues emptyDb))
   \<and> r_status (createIssue env1 emptyDb aliceId paddedDraft) = 201
   \<and> issueOf (r_body (getIssue env1 (r_db (createIssue env1 emptyDb aliceId paddedDraft)) (newId env1)))
       = Some \<lparr>i_id = issueB, title = ''Bug X'', description = Some [], status = ''Open'',
               priority = ''Low'', assignee = Some [], author = aliceId,
               createdAt = 5000, updatedAt = 5000\<rparr>"
proof -
  have t: "trim ''  Bug X  '' = ''Bug X''"
    by (simp add: trim_def isWhiteSpace_def)
  have v: "validDraft paddedDraft"
    by (simp add: validDraft_def paddedDraft_def emptyPatch_def titleOk_def t whenPresent_def)
  have u: "castObjectId aliceId = Some aliceId"
    by (simp add: id_defs fixture_defs)
  have n: "isLowercaseObjectId (newId env1)"
    by (simp add: isLowercaseObjectId_def isLowerHexDigit_def fixture_defs)
  have fr: "newId env1 \<notin> set (map i_id (issues emptyDb))"
    by (simp add: fixture_defs)
  have doc: "storedIssue env1 aliceId paddedDraft
       = \<lparr>i_id = issueB, title = ''Bug X'', description = Some [], status = ''Open'',
               priority = ''Low'', assignee = Some [], author = aliceId,
               createdAt = 5000, updatedAt = 5000\<rparr>"
    by (simp add: storedIssue_def trimmedOr_def givenOr_def paddedDraft_def emptyPatch_def t env1_def)
  show ?thesis
    using v u n fr doc createIssue_then_getIssue [OF v u n fr, of env1]
    by simp
qed

subsection \<open>Validation on create and update\<close>

lemma trim_spaces: "trim (replicate n (CHR '' '')) = []"
  by (simp add: trim_def isWhiteSpace_def)

lemma createIssue_invalid:
  assumes "\<not> validDraft f"
  shows "\<exists>errs. errs \<noteq> [] \<and> createIssue e db u f = respond 400 (ValidationFailure errs) db [Q_Issue_create]"
proof -
  obtain errs where "errs \<noteq> []"
    and "Issue_create IssueSchema_final e db (f\<lparr>f_author := Some u\<rparr>) = Inl (ValidationError errs)"
    using Issue_create_final_invalid [of "f\<lparr>f_author := Some u\<rparr>" e db] assms by auto
  then show ?thesis
    by (auto simp: createIssue_def)
qed

lemma castUpdate_ok:
  assumes "whenPresent (\<lambda>x. castObjectId x \<noteq> None) (f_author f)"
  shows "\<exists>f'. castUpdate f = Inr f'"
  using assms by (cases "f_author f") (auto simp: castUpdate_def whenPresent_def)

lemma updateIssue_invalid:
  assumes "isObjectIdFormat k" and "holdsIssue db k"
    and "whenPresent (\<lambda>x. castObjectId x \<noteq> None) (f_author f)" and "\<not> validPatch f"
  shows "\<exists>errs. errs \<noteq> [] \<and>
           updateIssue e db k f = respond 400 (ValidationFailure errs) db
             [Q_Issue_findById k, Q_Issue_findByIdAndUpdate k]"
proof -
  obtain i where found: "Issue_findById db k = Inr (Some i)"
    using assms(1,2) holdsIssue_found by (fastforce simp: Issue_findById_wf)
  obtain f' where c: "castUpdate f = Inr f'"
    using castUpdate_ok [OF assms(3)] by blast
  have ne: "updateValidators IssueSchema_final f' \<noteq> []"
    using updateValidators_final [OF c] assms(4) by simp
  have "Issue_findByIdAndUpdate IssueSchema_final e db k f
          = Inl (ValidationError (updateValidators IssueSchema_final f'))"
    using assms(1) ne by (simp add: Issue_findByIdAndUpdate_def castObjectId_def c)
  then have "updateIssue e db k f = respond 400 (ValidationFailure (updateValidators IssueSchema_final f')) db
             [Q_Issue_findById k, Q_Issue_findByIdAndUpdate k]"
    using assms(1) by (simp add: updateIssue_def found)
  with ne show ?thesis by blast
qed

lemma updateIssue_valid:
  assumes "isObjectIdFormat k" and "holdsIssue db k"
    and "whenPresent (\<lambda>x. castObjectId x \<noteq> None) (f_author f)" and "validPatch f"
  shows "r_status (updateIssue e db k f) = 200"
proof -
  obtain i where found: "Issue_findById db k = Inr (Some i)"
    using assms(1,2) holdsIssue_found by (fastforce simp: Issue_findById_wf)
  obtain f' where c: "castUpdate f = Inr f'"
    using castUpdate_ok [OF assms(3)] by blast
  have ok: "updateValidators IssueSchema_final f' = []"
    using updateValidators_final [OF c] assms(4) by simp
  obtain r where "Issue_findByIdAndUpdate IssueSchema_final e db k f = Inr r"
    using assms(1) ok by (simp add: Issue_findByIdAndUpdate_def castObjectId_def c Let_def)
  then show ?thesis
    using assms(1) by (cases r) (simp add: updateIssue_def found respond_def)
qed

text \<open>
  Claim C7, amended. createIssue answers 400 with a ValidationError, the store
  unchanged, for every draft that is not valid: one without a title, with a trimmed
  title shorter than 3 or longer than 200, a trimmed description longer than 2000, a
  trimmed assignee longer than 100, or a status or priority outside its enum.
  updateIssue of a stored issue, with a patch whose author (when it has one) is an
  ObjectId, answers 400 with a ValidationError when a field the patch has breaks its
  constraint, and 200 otherwise, whatever the fields it does not have. A valid draft
  is stored with description "", status "Open" and priority "Low" where it has none.
\<close>

theorem validation_on_create_and_update:
  "(\<not> validDraft f \<longrightarrow>
      (\<exists>errs. errs \<noteq> [] \<and>
         createIssue e db u f = respond 400 (ValidationFailure errs) db [Q_Issue_create]))
 \<and> (isObjectIdFormat k \<and> holdsIssue db k
       \<and> whenPresent (\<lambda>x. castObjectId x \<noteq> None) (f_author p) \<longrightarrow>
      (if validPatch p then r_status (updateIssue e db k p) = 200
       else (\<exists>errs. errs \<noteq> [] \<and>
               updateIssue e db k p = respond 400 (ValidationFailure errs) db
                 [Q_Issue_findById k, Q_Issue_findByIdAndUpdate k])))
 \<and> (validDraft f \<and> castObjectId u = Some a \<and> newId e \<notin> set (map i_id (issues db)) \<longrightarrow>
      (\<exists>i. issues (r_db (createIssue e db u f)) = issues db @ [i]
         \<and> (f_description f = None \<longrightarrow> description i = Some [])
         \<and> (f_status f = None \<longrightarrow> status i = ''Open'')
         \<and> (f_priority f = None \<longrightarrow> priority i = ''Low'')))"
proof (intro conjI impI)
  assume "\<not> validDraft f"
  then show "\<exists>errs. errs \<noteq> [] \<and>
         createIssue e db u f = respond 400 (ValidationFailure errs) db [Q_Issue_create]"
    by (rule createIssue_invalid)
next
  assume h: "isObjectIdFormat k \<and> holdsIssue db k
       \<and> whenPresent (\<lambda>x. castObjectId x \<noteq> None) (f_author p)"
  show "if validPatch p then r_status (updateIssue e db k p) = 200
       else (\<exists>errs. errs \<noteq> [] \<and>
               updateIssue e db k p = respond 400 (ValidationFailure errs) db
                 [Q_Issue_findById k, Q_Issue_findByIdAndUpdate k])"
    using h updateIssue_valid [of k db p e] updateIssue_invalid [of k db p e] by simp
next
  assume h: "validDraft f \<and> castObjectId u = Some a \<and> newId e \<notin> set (map i_id (issues db))"
  have created: "Issue_create IssueSchema_final e db (f\<lparr>f_author := Some u\<rparr>)
                  = Inr (storedIssue e a f, db\<lparr>issues := issues db @ [storedIssue e a f]\<rparr>)"
    using Issue_create_final_valid [of "f\<lparr>f_author := Some u\<rparr>" u a e db] h by simp
  have "issues (r_db (createIssue e db u f)) = issues db @ [storedIssue e a f]"
    by (simp add: createIssue_def created respond_def serverError_def split: sum.splits)
  then show "\<exists>i. issues (r_db (createIssue e db u f)) = issues db @ [i]
         \<and> (f_description f = None \<longrightarrow> description i = Some [])
         \<and> (f_status f = None \<longrightarrow> status i = ''Open'')
         \<and> (f_priority f = None \<longrightarrow> priority i = ''Low'')"
    by (simp add: storedIssue_def trimmedOr_def givenOr_def)
qed

text \<open>
  Claim C7, as the spec states it, fails: a description of 2001 spaces exceeds 2000
  characters, and createIssue accepts the draft (the validator sees the trimmed,
  empty description).
\<close>

theorem long_blank_description_is_accepted:
  "f_description spacesDraft = Some (replicate 2001 (CHR '' ''))
   \<and> 2000 < length (replicate 2001 (CHR '' ''))
   \<and> r_status (createIssue env1 emptyDb aliceId spacesDraft) = 201"
proof -
  have t: "trim ''Bug X'' = ''Bug X''"
    by (simp add: trim_def isWhiteSpace_def)
  have v: "validDraft spacesDraft"
    by (simp add: validDraft_def spacesDraft_def emptyPatch_def titleOk_def descriptionOk_def t
        whenPresent_def trim_spaces)
  have u: "castObjectId aliceId = Some aliceId"
    by (simp add: id_defs fixture_defs)
  have n: "isLowercaseObjectId (newId env1)"
    by (simp add: isLowercaseObjectId_def isLowerHexDigit_def fixture_defs)
  have fr: "newId env1 \<notin> set (map i_id (issues emptyDb))"
    by (simp add: fixture_defs)
  have "r_status (createIssue env1 emptyDb aliceId spacesDraft) = 201"
    by (simp add: createIssue_valid [OF v u n fr] respond_def)
  then show ?thesis
    by (simp add: spacesDraft_def)
qed

theorem validation_on_create_and_update_witness:
  "\<not> validDraft shortDraft
   \<and> (\<exists>errs. errs \<noteq> [] \<and>
         createIssue env1 oneIssueDb aliceId shortDraft
           = respond 400 (ValidationFailure errs) oneIssueDb [Q_Issue_create])
   \<and> isObjectIdFormat issueA \<and> holdsIssue oneIssueDb issueA
   \<and> \<not> validPatch shortDraft
   \<and> (\<exists>errs. errs \<noteq> [] \<and>
         updateIssue env1 oneIssueDb issueA shortDraft
           = respond 400 (ValidationFailure errs) oneIssueDb
               [Q_Issue_findById issueA, Q_Issue_findByIdAndUpdate issueA])
   \<and> validPatch closePatch
   \<and> r_status (updateIssue env1 oneIssueDb issueA closePatch) = 200
   \<and> validDraft paddedDraft \<and> castObjectId aliceId = Some aliceId
   \<and> newId env1 \<notin> set (map i_id (issues oneIssueDb))
   \<and> (\<exists>i. issues (r_db (createIssue env1 oneIssueDb aliceId paddedDraft)) = issues oneIssueDb @ [i]
          \<and> description i = Some [] \<and> status i = ''Open'' \<and> priority i = ''Low'')"
proof -
  have t1: "trim '' ab '' = ''ab''"
    by (simp add: trim_def isWhiteSpace_def)
  have t2: "trim ''  Bug X  '' = ''Bug X''"
    by (simp add: trim_def isWhiteSpace_def)
  have a: "\<not> validDraft shortDraft"
    by (simp add: validDraft_def shortDraft_def emptyPatch_def titleOk_def t1)
  have b: "\<not> validPatch shortDraft"
    by (simp add: validPatch_def shortDraft_def emptyPatch_def titleOk_def whenPresent_def t1)
  have c: "validPatch closePatch"
    by (simp add: validPatch_def closePatch_def emptyPatch_def statusOk_def whenPresent_def)
  have d: "validDraft paddedDraft"
    by (simp add: validDraft_def paddedDraft_def emptyPatch_def titleOk_def t2 whenPresent_def)
  have k: "isObjectIdFormat issueA"
    by (simp add: id_defs fixture_defs)
  have h: "holdsIssue oneIssueDb issueA"
    by (simp add: holdsIssue_def id_defs fixture_defs)
  have u: "castObjectId aliceId = Some aliceId"
    by (simp add: id_defs fixture_defs)
  have fr: "newId env1 \<notin> set (map i_id (issues oneIssueDb))"
    by (simp add: fixture_defs)
  have n1: "whenPresent (\<lambda>x. castObjectId x \<noteq> None) (f_author shortDraft)"
    by (simp add: whenPresent_def shortDraft_def emptyPatch_def)
  have n2: "whenPresent (\<lambda>x. castObjectId x \<noteq> None) (f_author closePatch)"
    by (simp add: whenPresent_def closePatch_def emptyPatch_def)
  have n3: "f_description paddedDraft = None \<and> f_status paddedDraft = None
            \<and> f_priority paddedDraft = None"
    by (simp add: paddedDraft_def emptyPatch_def)
  show ?thesis
    using a b c d k h u fr n1 n2 n3
      validation_on_create_and_update [of shortDraft env1 oneIssueDb aliceId issueA shortDraft aliceId]
      validation_on_create_and_update [of paddedDraft env1 oneIssueDb aliceId issueA closePatch aliceId]
    by simp
qed

subsection \<open>The legacy routes against the final routes\<close>


















lemma i_id_applyUpdate [simp]: "i_id (applyUpdate f t i) = i_id i"
  by (simp add: applyUpdate_def)









text \<open>
  Why the reads need a store whose issues have a description and an assignee. The
  legacy POST / stores a body with a title only as an issue without the two paths.
  The legacy GET /:id sends that issue without them; the final GET /:id sends it with
  the empty string of the final schema's default for both.
\<close>

lemma legacy_create_bare:
  "legacy_createIssue env1 emptyDb aliceId titleDraft =
     respond 201 (IssueData None (Some (populated IssueSchema_legacy env1 (emptyDb\<lparr>issues := [bareBug]\<rparr>) bareBug)))
       (emptyDb\<lparr>issues := [bareBug]\<rparr>) [Q_Issue_create, Q_Issue_findById issueB]"
proof -
  have t: "trim ''Bug V'' = ''Bug V''"
    by (simp add: trim_def isWhiteSpace_def)
  have c: "Issue_create IssueSchema_legacy env1 emptyDb (titleDraft\<lparr>f_author := Some aliceId\<rparr>)
             = Inr (bareBug, emptyDb\<lparr>issues := [bareBug]\<rparr>)"
    by (simp add: Issue_create_def Let_def t titleDraft_def emptyPatch_def IssueSchema_legacy_def
        validator_defs exceeds_def falls_short_def id_defs aliceId_def env1_def
        emptyDb_def bareBug_def issueB_def)
  have r: "Issue_findById (emptyDb\<lparr>issues := [bareBug]\<rparr>) (i_id bareBug) = Inr (Some bareBug)"
    by (simp add: Issue_findById_def id_defs bareBug_def issueB_def)
  have i: "i_id bareBug = issueB"
    by (simp add: bareBug_def)
  show ?thesis
    unfolding legacy_createIssue_def Let_def c by (simp add: r) (simp add: i)
qed

lemma legacy_created_issue_is_read_with_defaults:
  "r_status (legacy_createIssue env1 emptyDb aliceId titleDraft) = 201
   \<and> issues (r_db (legacy_createIssue env1 emptyDb aliceId titleDraft)) = [bareBug]
   \<and> description bareBug = None \<and> assignee bareBug = None
   \<and> \<not> storedInFull (r_db (legacy_createIssue env1 emptyDb aliceId titleDraft))
   \<and> map_option description
        (issueOf (r_body (legacy_getIssue env1 (r_db (legacy_createIssue env1 emptyDb aliceId titleDraft)) issueB)))
       = Some None
   \<and> map_option description
        (issueOf (r_body (getIssue env1 (r_db (legacy_createIssue env1 emptyDb aliceId titleDraft)) issueB)))
       = Some (Some [])
   \<and> \<not> agree (legacy_getIssue env1 (r_db (legacy_createIssue env1 emptyDb aliceId titleDraft)) issueB)
            (getIssue env1 (r_db (legacy_createIssue env1 emptyDb aliceId titleDraft)) issueB)"
  unfolding legacy_create_bare
  by (simp add: respond_def storedInFull_def legacy_getIssue_def getIssue_def Issue_findById_def
      issueOf_def populated_def issueWithVirtuals_def hydrate_def agree_def legacyShape_def
      dropVirtuals_def IssueSchema_final_def IssueSchema_legacy_def id_defs bareBug_def issueB_def
      emptyDb_def)

subsection \<open>What the final routes keep true of the store\<close>

text \<open>
  The three routes that write (POST /, PUT /:id, DELETE /:id) and POST /:id/comments
  keep the ids of the store unique and the status of every stored issue in the enum;
  the other routes leave the store as it is.
\<close>

lemma Issue_create_Inr:
  assumes "Issue_create sch e db f = Inr (i, db')"
  shows "db' = db\<lparr>issues := issues db @ [i]\<rparr> \<and> i_id i = newId e
       \<and> newId e \<notin> set (map i_id (issues db)) \<and> validate_status sch (status i) = []"
  using assms unfolding Issue_create_def Let_def create_case
  by (auto simp: preSave_def split: if_splits option.splits)

lemma status_enum_final:
  "validate_status IssueSchema_final s = [] \<Longrightarrow>
   s \<in> set [''Open'', ''In Progress'', ''Resolved'', ''Closed'']"
  using status_final [of s] by (simp add: statusOk_def)

lemma createIssue_db:
  "r_db (createIssue e db u f) = db
   \<or> (\<exists>i. r_db (createIssue e db u f) = db\<lparr>issues := issues db @ [i]\<rparr> \<and> i_id i = newId e
          \<and> newId e \<notin> set (map i_id (issues db))
          \<and> status i \<in> set [''Open'', ''In Progress'', ''Resolved'', ''Closed''])"
proof (cases "Issue_create IssueSchema_final e db (f\<lparr>f_author := Some u\<rparr>)")
  case (Inl err)
  then show ?thesis
    by (cases err) (simp_all add: createIssue_def respond_def serverError_def)
next
  case (Inr r)
  obtain i db' where r: "r = (i, db')"
    by (cases r)
  note c = Issue_create_Inr [OF Inr [unfolded r]]
  have "r_db (createIssue e db u f) = db'"
    by (simp add: createIssue_def Inr r respond_def serverError_def split: sum.splits)
  with c status_enum_final show ?thesis
    by blast
qed

lemma statusesValid_createIssue:
  "statusesValid db \<Longrightarrow> statusesValid (r_db (createIssue e db u f))"
  using createIssue_db [of e db u f] by (auto simp: statusesValid_def)

lemma uniqueIds_createIssue:
  "uniqueIds db \<Longrightarrow> uniqueIds (r_db (createIssue e db u f))"
  using createIssue_db [of e db u f] by (auto simp: uniqueIds_def)


lemma list_all_updateFirst:
  "list_all Q xs \<Longrightarrow> (\<And>x. Q x \<Longrightarrow> Q (g x)) \<Longrightarrow> list_all Q (updateFirst P g xs)"
  by (induction xs) auto

lemma map_updateFirst: "(\<And>x. h (g x) = h x) \<Longrightarrow> map h (updateFirst P g xs) = map h xs"
  by (induction xs) auto

lemma set_deleteFirst: "set (deleteFirst P xs) \<subseteq> set xs"
  by (induction xs) auto

lemma distinct_deleteFirst: "distinct (map h xs) \<Longrightarrow> distinct (map h (deleteFirst P xs))"
proof (induction xs)
  case Nil
  then show ?case by simp
next
  case (Cons x xs)
  have "h ` set (deleteFirst P xs) \<subseteq> h ` set xs"
    using set_deleteFirst by (rule image_mono)
  with Cons show ?case
    by auto
qed

lemma updateIssue_db:
  "r_db (updateIssue e db k f) = db
   \<or> (\<exists>f'. updateValidators IssueSchema_final f' = []
          \<and> r_db (updateIssue e db k f) =
                db\<lparr>issues := updateFirst (\<lambda>i. i_id i = map toLowerHex k) (applyUpdate f' (now e))
                                (issues db)\<rparr>)"
proof (cases "isObjectIdFormat k")
  case False
  then show ?thesis
    by (simp add: updateIssue_def respond_def)
next
  case True
  show ?thesis
  proof (cases "find (\<lambda>i. i_id i = map toLowerHex k) (issues db)")
    case None
    then show ?thesis
      using True by (simp add: updateIssue_def Issue_findById_wf respond_def)
  next
    case (Some i)
    show ?thesis
    proof (cases "castUpdate f")
      case (Inl err)
      then show ?thesis
        using True Some
        by (cases err)
           (simp_all add: updateIssue_def Issue_findById_wf Issue_findByIdAndUpdate_def
              castObjectId_def respond_def serverError_def)
    next
      case (Inr f')
      show ?thesis
      proof (cases "updateValidators IssueSchema_final f' = []")
        case False
        then show ?thesis
          using True Some Inr
          by (simp add: updateIssue_def Issue_findById_wf Issue_findByIdAndUpdate_def
              castObjectId_def respond_def)
      next
        case ok: True
        have "r_db (updateIssue e db k f) =
                db\<lparr>issues := updateFirst (\<lambda>i. i_id i = map toLowerHex k) (applyUpdate f' (now e))
                                (issues db)\<rparr>"
          using True Some Inr ok
          by (simp add: updateIssue_def Issue_findById_wf Issue_findByIdAndUpdate_def
              castObjectId_def respond_def Let_def)
        with ok show ?thesis
          by blast
      qed
    qed
  qed
qed

lemma status_applyUpdate:
  assumes "updateValidators IssueSchema_final f' = []"
    and "status i \<in> set [''Open'', ''In Progress'', ''Resolved'', ''Closed'']"
  shows "status (applyUpdate f' t i) \<in> set [''Open'', ''In Progress'', ''Resolved'', ''Closed'']"
proof (cases "f_status f'")
  case None
  then show ?thesis
    using assms(2) by (simp add: applyUpdate_def)
next
  case (Some s)
  then have "validate_status IssueSchema_final s = []"
    using assms(1) by (simp add: updateValidators_def)
  then have "s \<in> set [''Open'', ''In Progress'', ''Resolved'', ''Closed'']"
    by (rule status_enum_final)
  then show ?thesis
    using Some by (simp add: applyUpdate_def)
qed

lemma statusesValid_updateIssue:
  assumes "statusesValid db"
  shows "statusesValid (r_db (updateIssue e db k f))"
  using updateIssue_db [of e db k f]
proof
  assume "r_db (updateIssue e db k f) = db"
  with assms show ?thesis by simp
next
  assume "\<exists>f'. updateValidators IssueSchema_final f' = []
          \<and> r_db (updateIssue e db k f) =
                db\<lparr>issues := updateFirst (\<lambda>i. i_id i = map toLowerHex k) (applyUpdate f' (now e))
                                (issues db)\<rparr>"
  then obtain f' where ok: "updateValidators IssueSchema_final f' = []"
    and db': "r_db (updateIssue e db k f) =
                db\<lparr>issues := updateFirst (\<lambda>i. i_id i = map toLowerHex k) (applyUpdate f' (now e))
                                (issues db)\<rparr>"
    by blast
  show ?thesis
    unfolding db' statusesValid_def
    using assms status_applyUpdate [OF ok]
    by (simp add: statusesValid_def list_all_updateFirst)
qed

lemma uniqueIds_updateIssue:
  assumes "uniqueIds db"
  shows "uniqueIds (r_db (updateIssue e db k f))"
  using updateIssue_db [of e db k f] assms
  by (auto simp: uniqueIds_def map_updateFirst)

lemma deleteIssue_db:
  "r_db (deleteIssue e db k) = db
   \<or> r_db (deleteIssue e db k) =
        db\<lparr>issues := deleteFirst (\<lambda>i. i_id i = map toLowerHex k) (issues db),
           comments := filter (\<lambda>c. c_issue c \<noteq> map toLowerHex k) (comments db)\<rparr>"
  by (cases "isObjectIdFormat k")
     (auto simp: deleteIssue_def Issue_findById_wf Issue_findByIdAndDelete_def
        Comment_deleteMany_def castObjectId_def respond_def split: option.splits)

lemma statusesValid_deleteIssue:
  "statusesValid db \<Longrightarrow> statusesValid (r_db (deleteIssue e db k))"
  using deleteIssue_db [of e db k] set_deleteFirst [of "\<lambda>i. i_id i = map toLowerHex k" "issues db"]
  by (auto simp: statusesValid_def list_all_iff)

lemma uniqueIds_deleteIssue:
  "uniqueIds db \<Longrightarrow> uniqueIds (r_db (deleteIssue e db k))"
  using deleteIssue_db [of e db k]
  by (auto simp: uniqueIds_def distinct_deleteFirst distinct_map_filter)

lemma addComment_db:
  "r_db (addComment e db u k c) = db
   \<or> (\<exists>d. r_db (addComment e db u k c) = db\<lparr>comments := comments db @ [d]\<rparr> \<and> c_id d = newId e
          \<and> newId e \<notin> set (map c_id (comments db)))"
  by (auto simp: addComment_def Comment_create_def Let_def respond_def serverError_def
      split: if_splits option.splits sum.splits list.splits)

lemma statusesValid_addComment:
  "statusesValid db \<Longrightarrow> statusesValid (r_db (addComment e db u k c))"
  using addComment_db [of e db u k c] by (auto simp: statusesValid_def)

lemma uniqueIds_addComment:
  "uniqueIds db \<Longrightarrow> uniqueIds (r_db (addComment e db u k c))"
  using addComment_db [of e db u k c] by (auto simp: uniqueIds_def)

subsection \<open>Binary64 rounding\<close>

lemma bits_bounds: "0 < n \<Longrightarrow> 2 ^ (bits n - 1) \<le> n \<and> n < 2 ^ bits n"
proof (induction n rule: bits.induct)
  case (1 n)
  show ?case
  proof (cases "n div 2 = 0")
    case True
    with "1.prems" have "n = 1" by presburger
    then show ?thesis by simp
  next
    case False
    then have pos: "0 < n div 2" by simp
    from "1.IH" [OF _ pos] "1.prems"
    have ih: "2 ^ (bits (n div 2) - 1) \<le> n div 2 \<and> n div 2 < 2 ^ bits (n div 2)"
      by simp
    have b: "bits n = Suc (bits (n div 2))"
      using "1.prems" by (subst bits.simps) simp
    have bpos: "0 < bits (n div 2)"
      using pos by (subst bits.simps) simp
    then obtain m where m: "bits (n div 2) = Suc m"
      by (cases "bits (n div 2)") auto
    from ih have "2 * 2 ^ m \<le> n" and "n < 2 * 2 ^ Suc m"
      unfolding m by simp_all presburger+
    then show ?thesis
      unfolding b m by simp
  qed
qed


lemma binade_bounds:
  assumes "0 < x"
  shows "2 powi (binade x) \<le> x \<and> x < 2 powi (binade x + 1)"
proof -
  obtain p q where pq: "quotient_of x = (p, q)"
    by (cases "quotient_of x")
  have q: "0 < q"
    using pq by (rule quotient_of_denom_pos)
  have x: "x = of_int p / of_int q"
    using pq by (rule quotient_of_div)
  have p: "0 < p"
    using assms q unfolding x by (simp add: zero_less_divide_iff)
  define P where "P = nat p"
  define Q where "Q = nat q"
  have P: "0 < P" "of_int p = (of_nat P :: rat)"
    using p by (simp_all add: P_def)
  have Q: "0 < Q" "of_int q = (of_nat Q :: rat)"
    using q by (simp_all add: Q_def)
  define bp where "bp = bits P"
  define bq where "bq = bits Q"
  have bP: "2 ^ (bp - 1) \<le> P" "P < 2 ^ bp"
    using bits_bounds [OF P(1)] by (simp_all add: bp_def)
  have bQ: "2 ^ (bq - 1) \<le> Q" "Q < 2 ^ bq"
    using bits_bounds [OF Q(1)] by (simp_all add: bq_def)
  have bp1: "1 \<le> bp" and bq1: "1 \<le> bq"
    using P(1) Q(1) by (simp_all add: bp_def bq_def)
  define k where "k = int bp - int bq"
  have xPQ: "x = of_nat P / of_nat Q"
    by (simp add: x P Q)
  have rP: "(2::rat) ^ (bp - 1) \<le> of_nat P" "(of_nat P :: rat) < 2 ^ bp"
    using bP by (metis of_nat_le_iff of_nat_numeral of_nat_power, metis of_nat_less_iff of_nat_numeral of_nat_power)
  have rQ: "(2::rat) ^ (bq - 1) \<le> of_nat Q" "(of_nat Q :: rat) < 2 ^ bq"
    using bQ by (metis of_nat_le_iff of_nat_numeral of_nat_power, metis of_nat_less_iff of_nat_numeral of_nat_power)
  have Qpos: "(0::rat) < of_nat Q"
    using Q(1) by simp
  have up: "x < 2 powi (k + 1)"
  proof -
    have "x < 2 ^ bp / of_nat Q"
      unfolding xPQ using rP(2) Qpos by (simp add: divide_strict_right_mono)
    also have "\<dots> \<le> 2 ^ bp / 2 ^ (bq - 1)"
      using rQ(1) by (simp add: frac_le)
    also have "\<dots> = 2 powi (int bp - int (bq - 1))"
      by (simp add: power_int_diff)
    also have "int bp - int (bq - 1) = k + 1"
      using bq1 by (simp add: k_def)
    finally show ?thesis .
  qed
  have low: "2 powi (k - 1) < x"
  proof -
    have "(2::rat) powi (k - 1) = 2 ^ (bp - 1) / 2 ^ bq"
    proof -
      have "k - 1 = int (bp - 1) - int bq"
        using bp1 by (simp add: k_def)
      then show ?thesis
        by (simp add: power_int_diff)
    qed
    also have "\<dots> < 2 ^ (bp - 1) / of_nat Q"
      using rQ(2) Qpos by (simp add: divide_strict_left_mono)
    also have "\<dots> \<le> x"
      unfolding xPQ using rP(1) Qpos by (simp add: divide_right_mono)
    finally show ?thesis .
  qed
  have b: "binade x = (if 2 powi k \<le> x then k else k - 1)"
    by (simp add: binade_def pq k_def bp_def bq_def P_def Q_def)
  show ?thesis
  proof (cases "2 powi k \<le> x")
    case True
    then show ?thesis using up by (simp add: b)
  next
    case False
    then show ?thesis using low by (simp add: b)
  qed
qed


lemma roundHalfEven_near: "\<bar>of_int (roundHalfEven y) - y\<bar> \<le> 1 / 2"
proof -
  have "of_int \<lfloor>y\<rfloor> \<le> y" and "y < of_int \<lfloor>y\<rfloor> + 1"
    by linarith+
  then show ?thesis
    by (auto simp: roundHalfEven_def Let_def)
qed

lemma fl_error:
  assumes "0 < x"
  shows "\<bar>fl x - x\<bar> \<le> x / 2 ^ 53"
proof -
  define b where "b = binade x"
  define y where "y = x * 2 powi (52 - b)"
  have bnd: "2 powi b \<le> x"
    using binade_bounds [OF assms] by (simp add: b_def)
  have unscale: "y * 2 powi (b - 52) = x"
  proof -
    have "(2::rat) powi (52 - b) * 2 powi (b - 52) = 2 powi ((52 - b) + (b - 52))"
      by (subst power_int_add) simp_all
    then have "(2::rat) powi (52 - b) * 2 powi (b - 52) = 1"
      by simp
    then show ?thesis
      by (simp add: y_def mult.assoc)
  qed
  have "fl x - x = (of_int (roundHalfEven y) - y) * 2 powi (b - 52)"
    using assms by (simp add: fl_def b_def [symmetric] y_def [symmetric] left_diff_distrib unscale)
  then have "\<bar>fl x - x\<bar> = \<bar>of_int (roundHalfEven y) - y\<bar> * 2 powi (b - 52)"
    by (simp add: abs_mult)
  also have "\<dots> \<le> 1 / 2 * 2 powi (b - 52)"
    by (rule mult_right_mono [OF roundHalfEven_near]) simp
  also have "\<dots> = 2 powi b / 2 ^ 53"
  proof -
    have "(2::rat) powi (b - 52) = 2 powi b / 2 powi 52"
      by (rule power_int_diff) simp
    then show ?thesis by simp
  qed
  also have "\<dots> \<le> x / 2 ^ 53"
    using bnd by (simp add: divide_right_mono)
  finally show ?thesis .
qed


lemma fl_zero [simp]: "fl 0 = 0"
  by (simp add: fl_def)

lemma tenths_near:
  assumes t: "0 < t" and st: "s \<le> t" and small: "t < 2 ^ 40"
  defines "n \<equiv> nat \<lfloor>10 * js_mul (js_div (of_nat s) (of_nat t)) 100 + 1 / 2\<rfloor>"
  shows "2 * \<bar>int n * int t - 1000 * int s\<bar> \<le> int t"
proof (cases "s = 0")
  case True
  then have "n = 0"
    by (simp add: n_def js_div_def js_mul_def)
  with True show ?thesis by simp
next
  case False
  define x :: rat where "x = of_nat s / of_nat t"
  define d1 where "d1 = fl x"
  define d2 where "d2 = fl (d1 * 100)"
  define m where "m = \<lfloor>10 * d2 + 1 / 2\<rfloor>"
  have tpos: "(0::rat) < of_nat t"
    using t by simp
  have xpos: "0 < x"
    using False t by (simp add: x_def)
  have xt: "x * of_nat t = of_nat s"
    using t by (simp add: x_def)
  have tiny: "x / 2 ^ 53 \<le> x / 2"
    using xpos by (simp add: frac_le)
  have e1: "\<bar>d1 - x\<bar> \<le> x / 2 ^ 53"
    unfolding d1_def by (rule fl_error [OF xpos])
  have d1pos: "0 < d1"
    using e1 tiny xpos by linarith
  have d1up: "d1 \<le> 2 * x"
    using e1 tiny xpos by linarith
  have e2: "\<bar>d2 - d1 * 100\<bar> \<le> d1 * 100 / 2 ^ 53"
    unfolding d2_def by (rule fl_error) (use d1pos in simp)
  have e2': "d1 * 100 / 2 ^ 53 \<le> 200 * x / 2 ^ 53"
    using d1up by (simp add: divide_right_mono)
  have d2pos: "0 \<le> d2"
  proof -
    have "d1 * 100 / 2 ^ 53 \<le> d1 * 100"
      using d1pos by (simp add: divide_le_eq)
    with e2 show ?thesis by linarith
  qed
  have e3: "\<bar>d2 - 100 * x\<bar> \<le> 300 * x / 2 ^ 53"
  proof -
    have a: "d1 - x \<le> x / 2 ^ 53" "x - d1 \<le> x / 2 ^ 53"
      using e1 by linarith+
    have b: "d2 - d1 * 100 \<le> 200 * x / 2 ^ 53" "d1 * 100 - d2 \<le> 200 * x / 2 ^ 53"
      using e2 e2' by linarith+
    have "d2 - 100 * x \<le> 300 * x / 2 ^ 53" "100 * x - d2 \<le> 300 * x / 2 ^ 53"
      using a b by linarith+
    then show ?thesis
      by linarith
  qed
  have e3a: "d2 - 100 * x \<le> 300 * x / 2 ^ 53" and e3b: "100 * x - d2 \<le> 300 * x / 2 ^ 53"
    using e3 by linarith+
  have mpos: "0 \<le> m"
    using d2pos by (simp add: m_def)
  have nm: "int n = m"
    using mpos by (simp add: n_def m_def d2_def d1_def x_def js_div_def js_mul_def)
  have fl1: "of_int m \<le> 10 * d2 + 1 / 2" and fl2: "10 * d2 + 1 / 2 < of_int m + 1"
    unfolding m_def by linarith+
  have e4: "\<bar>of_int m - 1000 * x\<bar> \<le> 1 / 2 + 3000 * x / 2 ^ 53"
  proof -
    have "of_int m - 1000 * x \<le> 1 / 2 + 3000 * x / 2 ^ 53"
      using fl1 e3a by linarith
    moreover have "1000 * x - of_int m \<le> 1 / 2 + 3000 * x / 2 ^ 53"
      using fl2 e3b by linarith
    ultimately show ?thesis
      by linarith
  qed
  have "\<bar>of_int m * of_nat t - 1000 * of_nat s\<bar> = \<bar>of_int m - 1000 * x\<bar> * of_nat t"
  proof -
    have "of_int m * of_nat t - 1000 * of_nat s = (of_int m - 1000 * x) * of_nat t"
      by (simp add: left_diff_distrib xt mult.assoc)
    then show ?thesis
      using tpos by (simp add: abs_mult)
  qed
  also have "\<dots> \<le> (1 / 2 + 3000 * x / 2 ^ 53) * of_nat t"
    using e4 tpos by (simp add: mult_right_mono)
  also have "\<dots> = of_nat t / 2 + 3000 * (x * of_nat t) / 2 ^ 53"
    by (simp add: algebra_simps)
  also have "\<dots> = of_nat t / 2 + 3000 * of_nat s / 2 ^ 53"
    by (simp only: xt)
  finally have e5: "2 * \<bar>of_int m * of_nat t - 1000 * (of_nat s :: rat)\<bar>
                      \<le> of_nat t + 6000 * of_nat s / 2 ^ 53"
    by simp
  have "6000 * s < 2 ^ 53"
    using st small by simp
  then have "6000 * (of_nat s :: rat) < 2 ^ 53"
    by (metis of_nat_less_iff of_nat_mult of_nat_numeral of_nat_power)
  then have "6000 * (of_nat s :: rat) / 2 ^ 53 < 1"
    by simp
  with e5 have "2 * \<bar>of_int m * of_nat t - 1000 * (of_nat s :: rat)\<bar> < of_nat t + 1"
    by linarith
  then have "(of_int (2 * \<bar>m * int t - 1000 * int s\<bar>) :: rat) < of_int (int t + 1)"
    by simp
  then have "2 * \<bar>m * int t - 1000 * int s\<bar> < int t + 1"
    by (simp only: of_int_less_iff)
  then show ?thesis
    by (simp add: nm)
qed


subsection \<open>Statistics\<close>

lemma count_by_status:
  "list_all (\<lambda>i. status i \<in> set [''Open'', ''In Progress'', ''Resolved'', ''Closed'']) xs \<Longrightarrow>
   length (filter (\<lambda>i. author i = a \<and> status i = ''Open'') xs)
   + length (filter (\<lambda>i. author i = a \<and> status i = ''In Progress'') xs)
   + length (filter (\<lambda>i. author i = a \<and> status i = ''Resolved'') xs)
   + length (filter (\<lambda>i. author i = a \<and> status i = ''Closed'') xs)
   = length (filter (\<lambda>i. author i = a) xs)"
  by (induction xs) auto

lemma tenth_as_rational:
  assumes "0 < t" and "2 * \<bar>int n * int t - 1000 * int s\<bar> \<le> int t"
  shows "\<bar>of_nat n / 10 - 100 * of_nat s / (of_nat t :: rat)\<bar> \<le> 1 / 20"
proof -
  have tpos: "(0::rat) < of_nat t"
    using assms(1) by simp
  have "(of_int (2 * \<bar>int n * int t - 1000 * int s\<bar>) :: rat) \<le> of_int (int t)"
    using assms(2) by (simp only: of_int_le_iff)
  then have b: "2 * \<bar>of_nat n * of_nat t - 1000 * (of_nat s :: rat)\<bar> \<le> of_nat t"
    by simp
  have "of_nat n / 10 - 100 * of_nat s / (of_nat t :: rat)
          = (of_nat n * of_nat t - 1000 * of_nat s) / (10 * of_nat t)"
    using tpos by (simp add: field_simps)
  then have "\<bar>of_nat n / 10 - 100 * of_nat s / (of_nat t :: rat)\<bar>
          = \<bar>of_nat n * of_nat t - 1000 * of_nat s\<bar> / (10 * of_nat t)"
    using tpos by (simp add: abs_divide del: of_nat_mult)
  also have "\<dots> \<le> (of_nat t / 2) / (10 * of_nat t)"
    using b tpos by (intro divide_right_mono) simp_all
  also have "\<dots> = 1 / 20"
    using tpos by simp
  finally show ?thesis .
qed

lemma myStatistics_ok:
  "castObjectId u = Some a \<Longrightarrow>
   myStatistics e db u =
     respond 200
       (Statistics
          \<lparr>total = length (filter (\<lambda>i. author i = a) (issues db)),
           open = length (filter (\<lambda>i. author i = a \<and> status i = ''Open'') (issues db)),
           inProgress = length (filter (\<lambda>i. author i = a \<and> status i = ''In Progress'') (issues db)),
           resolved = length (filter (\<lambda>i. author i = a \<and> status i = ''Resolved'') (issues db)),
           closed = length (filter (\<lambda>i. author i = a \<and> status i = ''Closed'') (issues db)),
           solved = length (filter (\<lambda>i. author i = a \<and> status i = ''Resolved'') (issues db))
                    + length (filter (\<lambda>i. author i = a \<and> status i = ''Closed'') (issues db)),
           ongoing = length (filter (\<lambda>i. author i = a \<and> status i = ''Open'') (issues db))
                     + length (filter (\<lambda>i. author i = a \<and> status i = ''In Progress'') (issues db)),
           completionRate =
             Some (completionRate_of (length (filter (\<lambda>i. author i = a) (issues db)))
                     (length (filter (\<lambda>i. author i = a \<and> status i = ''Resolved'') (issues db)))
                     (length (filter (\<lambda>i. author i = a \<and> status i = ''Closed'') (issues db))))\<rparr>)
       db (replicate 5 Q_Issue_countDocuments)"
  by (simp add: myStatistics_def Issue_countDocuments_def)

text \<open>
  The text that \<open>decimal1\<close> writes reads back as the number of tenths it was
  written for.
\<close>

lemma digit_table:
  "digit 0 = CHR ''0''" "digit 1 = CHR ''1''" "digit 2 = CHR ''2''" "digit 3 = CHR ''3''"
  "digit 4 = CHR ''4''" "digit 5 = CHR ''5''" "digit 6 = CHR ''6''" "digit 7 = CHR ''7''"
  "digit 8 = CHR ''8''" "digit 9 = CHR ''9''" "digit (Suc 0) = CHR ''1''"
  by (simp_all add: digit_def char_of_eq_iff)

lemma digit_props:
  assumes "d < 10"
  shows "isDigit (digit d)" and "digitValue (digit d) = d" and "(digit d = CHR ''0'') = (d = 0)"
proof -
  from assms have "d = 0 \<or> d = 1 \<or> d = 2 \<or> d = 3 \<or> d = 4 \<or> d = 5 \<or> d = 6 \<or> d = 7 \<or> d = 8 \<or> d = 9"
    by arith
  then show "isDigit (digit d)" and "digitValue (digit d) = d" and "(digit d = CHR ''0'') = (d = 0)"
    by (auto simp: digit_table isDigit_def digitValue_def)
qed

lemma numeralValue_snoc: "numeralValue (s @ [c]) = 10 * numeralValue s + digitValue c"
  by (simp add: numeralValue_def)

lemma digits_small: "n < 10 \<Longrightarrow> digits n = [digit n]"
  by (subst digits.simps) simp

lemma digits_large: "\<not> n < 10 \<Longrightarrow> digits n = digits (n div 10) @ [digit (n mod 10)]"
  by (subst digits.simps) simp

lemma digits_ne: "digits n \<noteq> []"
  by (cases "n < 10") (simp_all add: digits_small digits_large)

lemma digits_all: "list_all isDigit (digits n)"
proof (induction n rule: digits.induct)
  case (1 n)
  show ?case
  proof (cases "n < 10")
    case True
    then show ?thesis by (simp add: digits_small digit_props)
  next
    case False
    then show ?thesis using 1 by (simp add: digits_large digit_props)
  qed
qed

lemma digits_value: "numeralValue (digits n) = n"
proof (induction n rule: digits.induct)
  case (1 n)
  show ?case
  proof (cases "n < 10")
    case True
    then show ?thesis by (simp add: digits_small numeralValue_def digit_props)
  next
    case False
    then show ?thesis using 1 by (simp add: digits_large numeralValue_snoc digit_props)
  qed
qed

lemma digits_lead: "hd (digits n) \<noteq> CHR ''0'' \<or> length (digits n) = 1"
proof (induction n rule: digits.induct)
  case (1 n)
  show ?case
  proof (cases "n < 10")
    case True
    then show ?thesis by (simp add: digits_small)
  next
    case False
    then have "hd (digits (n div 10)) \<noteq> CHR ''0'' \<or> length (digits (n div 10)) = 1"
      using 1 by simp
    then have "hd (digits (n div 10)) \<noteq> CHR ''0''"
    proof
      assume "length (digits (n div 10)) = 1"
      show ?thesis
      proof (cases "n div 10 < 10")
        case True
        moreover have "n div 10 \<noteq> 0" using False by simp
        ultimately show ?thesis by (simp add: digits_small digit_props)
      next
        case f: False
        have "length (digits (n div 10)) = Suc (length (digits (n div 10 div 10)))"
          by (simp add: digits_large [OF f])
        with \<open>length (digits (n div 10)) = 1\<close> digits_ne [of "n div 10 div 10"] show ?thesis
          by simp
      qed
    qed
    then show ?thesis
      using False digits_ne [of "n div 10"] by (simp add: digits_large)
  qed
qed

lemma readFixed1_decimal1: "readFixed1 (decimal1 n) = Some n"
proof -
  have "rev (decimal1 n) = digit (n mod 10) # CHR ''.'' # rev (digits (n div 10))"
    by (simp add: decimal1_def)
  moreover have "last (rev (digits (n div 10))) = hd (digits (n div 10))"
    using digits_ne [of "n div 10"] by (simp add: last_rev)
  ultimately show ?thesis
    using digits_ne [of "n div 10"] digits_all [of "n div 10"] digits_lead [of "n div 10"]
    by (simp add: readFixed1_def digits_value digit_props)
qed

text \<open>
  And it is the only text that reads as that number: the reader determines the text.
\<close>

lemma digit_of_value: "isDigit c \<Longrightarrow> digit (digitValue c) = c \<and> digitValue c < 10"
  by (auto simp: isDigit_def digitValue_def digit_table)

lemma numeralValue_pos:
  "s \<noteq> [] \<Longrightarrow> list_all isDigit s \<Longrightarrow> hd s \<noteq> CHR ''0'' \<Longrightarrow> 0 < numeralValue s"
proof (induction s rule: rev_induct)
  case Nil
  then show ?case by simp
next
  case (snoc c s)
  show ?case
  proof (cases "s = []")
    case True
    with snoc.prems have "isDigit c" "c \<noteq> CHR ''0''"
      by simp_all
    then have "digitValue c \<noteq> 0"
      by (auto simp: isDigit_def digitValue_def)
    with True show ?thesis
      by (simp add: numeralValue_def)
  next
    case False
    with snoc have "0 < numeralValue s"
      by simp
    then show ?thesis
      by (simp add: numeralValue_snoc)
  qed
qed

lemma digits_numeralValue:
  "s \<noteq> [] \<Longrightarrow> list_all isDigit s \<Longrightarrow> hd s \<noteq> CHR ''0'' \<or> length s = 1 \<Longrightarrow>
   digits (numeralValue s) = s"
proof (induction s rule: rev_induct)
  case Nil
  then show ?case by simp
next
  case (snoc c s)
  from snoc.prems have c: "isDigit c"
    by simp
  show ?case
  proof (cases "s = []")
    case True
    then show ?thesis
      using digit_of_value [OF c] by (simp add: numeralValue_def digits_small)
  next
    case False
    with snoc.prems have lead: "hd s \<noteq> CHR ''0''" and all: "list_all isDigit s"
      by (cases s; simp)+
    have pos: "0 < numeralValue s"
      using False all lead by (rule numeralValue_pos)
    have ih: "digits (numeralValue s) = s"
      using False all lead by (simp add: snoc.IH)
    have v: "numeralValue (s @ [c]) = 10 * numeralValue s + digitValue c"
      by (rule numeralValue_snoc)
    have "\<not> numeralValue (s @ [c]) < 10"
      using pos by (simp add: v)
    then have "digits (numeralValue (s @ [c]))
                 = digits (numeralValue (s @ [c]) div 10) @ [digit (numeralValue (s @ [c]) mod 10)]"
      by (rule digits_large)
    then show ?thesis
      using digit_of_value [OF c] by (simp add: v ih)
  qed
qed

lemma readFixed1_only_decimal1:
  assumes "readFixed1 s = Some n"
  shows "s = decimal1 n"
proof -
  from assms obtain d w where r: "rev s = d # CHR ''.'' # w"
    and d: "isDigit d" and w: "w \<noteq> []" "list_all isDigit w" "last w \<noteq> CHR ''0'' \<or> length w = 1"
    and n: "n = 10 * numeralValue (rev w) + digitValue d"
    by (auto simp: readFixed1_def split: list.splits if_splits)
  have s: "s = rev w @ CHR ''.'' # [d]"
    using r by (metis rev_rev_ident rev.simps(2) append_Cons append_Nil append_assoc)
  have lead: "hd (rev w) \<noteq> CHR ''0'' \<or> length (rev w) = 1"
    using w by (simp add: hd_rev)
  have ip: "digits (numeralValue (rev w)) = rev w"
    using w lead by (intro digits_numeralValue) simp_all
  have "n div 10 = numeralValue (rev w)" and "n mod 10 = digitValue d"
    using digit_of_value [OF d] by (simp_all add: n)
  then show ?thesis
    using digit_of_value [OF d] by (simp add: decimal1_def ip s)
qed

text \<open>
  A number of tenths within 0.05 of \<open>q\<close> is \<open>q\<close> rounded to one decimal, unless
  \<open>q\<close> lies midway between two tenths: then it is the rounded value or the tenth
  below it.
\<close>

lemma nearest_tenth:
  fixes q :: rat
  assumes "\<bar>of_nat n / 10 - q\<bar> \<le> 1 / 20"
  shows "int n = roundedTenths q \<or> (frac (10 * q) = 1 / 2 \<and> int n = roundedTenths q - 1)"
proof -
  define y where "y = 10 * q"
  have a: "rat_of_nat n / 10 - q \<le> 1 / 20"
    using assms by (rule abs_le_D1)
  have b: "- (rat_of_nat n / 10 - q) \<le> 1 / 20"
    using assms by (rule abs_le_D2)
  have lo: "of_int (int n) - 1 / 2 \<le> y"
    using a unfolding y_def by simp
  have hi: "y \<le> of_int (int n) + 1 / 2"
    using b unfolding y_def by simp
  show ?thesis
  proof (cases "y < of_int (int n) + 1 / 2")
    case True
    have "\<lfloor>y + 1 / 2\<rfloor> = int n"
      by (rule floor_unique) (use lo True in linarith)+
    then show ?thesis
      by (simp add: roundedTenths_def y_def)
  next
    case False
    with hi have y: "y = of_int (int n) + 1 / 2"
      by simp
    have "y + 1 / 2 = of_int (int n + 1)"
      by (simp add: y)
    then have up: "\<lfloor>y + 1 / 2\<rfloor> = int n + 1"
      by (simp only: floor_of_int)
    have "\<lfloor>y\<rfloor> = int n"
      by (rule floor_unique) (simp_all add: y)
    then have "frac y = 1 / 2"
      by (simp add: frac_def y)
    with up show ?thesis
      by (simp add: roundedTenths_def y_def)
  qed
qed

text \<open>
  Claim C5, amended. In a store whose issues all have a status of the enum, for an
  acting user whose id is an ObjectId and who has fewer than \<open>2 ^ 40\<close> issues,
  myStatistics answers 200 with the counts of exactly the issues whose author is the
  user: the four status counts add up to the total, solved is resolved plus closed,
  ongoing is open plus in progress. The completion rate is the number 0 when the
  total is 0. Otherwise it is a text: a decimal with one digit after the point that
  is within 0.05 of \<open>100 * solved / total\<close>. That is \<open>100 * solved / total\<close>
  rounded to one decimal, unless the quotient lies midway between two such
  decimals, where the text is either of the two. The rate is computed in binary64
  arithmetic as the source does. The legacy route answers with the same counts and
  no completion rate.
\<close>

theorem myStatistics_counts_and_rate:
  assumes "statusesValid db" and "castObjectId u = Some a"
    and "length (filter (\<lambda>i. author i = a) (issues db)) < 2 ^ 40"
  shows "\<exists>s. myStatistics e db u = respond 200 (Statistics s) db (replicate 5 Q_Issue_countDocuments)
       \<and> legacy_myStatistics e db u
           = respond 200 (Statistics (s\<lparr>completionRate := None\<rparr>)) db (replicate 5 Q_Issue_countDocuments)
       \<and> total s = length (filter (\<lambda>i. author i = a) (issues db))
       \<and> open s = length (filter (\<lambda>i. author i = a \<and> status i = ''Open'') (issues db))
       \<and> inProgress s = length (filter (\<lambda>i. author i = a \<and> status i = ''In Progress'') (issues db))
       \<and> resolved s = length (filter (\<lambda>i. author i = a \<and> status i = ''Resolved'') (issues db))
       \<and> closed s = length (filter (\<lambda>i. author i = a \<and> status i = ''Closed'') (issues db))
       \<and> open s + inProgress s + resolved s + closed s = total s
       \<and> solved s = resolved s + closed s
       \<and> ongoing s = open s + inProgress s
       \<and> (if total s = 0 then completionRate s = Some (Number 0)
           else (\<exists>txt n. completionRate s = Some (Text txt) \<and> readFixed1 txt = Some n
                   \<and> \<bar>of_nat n / 10 - 100 * of_nat (solved s) / (of_nat (total s) :: rat)\<bar> \<le> 1 / 20
                   \<and> (int n = roundedTenths (100 * of_nat (solved s) / of_nat (total s))
                        \<or> frac (10 * (100 * of_nat (solved s) / (of_nat (total s) :: rat))) = 1 / 2
                          \<and> int n = roundedTenths (100 * of_nat (solved s) / of_nat (total s)) - 1)))"
proof -
  let ?n = "\<lambda>st. length (filter (\<lambda>i. author i = a \<and> status i = st) (issues db))"
  let ?t = "length (filter (\<lambda>i. author i = a) (issues db))"
  let ?s = "\<lparr>total = ?t, open = ?n ''Open'', inProgress = ?n ''In Progress'',
             resolved = ?n ''Resolved'', closed = ?n ''Closed'',
             solved = ?n ''Resolved'' + ?n ''Closed'', ongoing = ?n ''Open'' + ?n ''In Progress'',
             completionRate = Some (completionRate_of ?t (?n ''Resolved'') (?n ''Closed''))\<rparr>"
  have r: "myStatistics e db u = respond 200 (Statistics ?s) db (replicate 5 Q_Issue_countDocuments)"
    using assms(2) by (simp add: myStatistics_def Issue_countDocuments_def)
  have l: "legacy_myStatistics e db u
             = respond 200 (Statistics (?s\<lparr>completionRate := None\<rparr>)) db
                 (replicate 5 Q_Issue_countDocuments)"
    using assms(2) by (simp add: legacy_myStatistics_def Issue_countDocuments_def)
  have sum: "?n ''Open'' + ?n ''In Progress'' + ?n ''Resolved'' + ?n ''Closed'' = ?t"
    using assms(1) unfolding statusesValid_def by (rule count_by_status)
  have le: "?n ''Resolved'' + ?n ''Closed'' \<le> ?t"
    using sum by linarith
  have rate: "if ?t = 0 then completionRate ?s = Some (Number 0)
           else (\<exists>txt n. completionRate ?s = Some (Text txt) \<and> readFixed1 txt = Some n
                   \<and> \<bar>of_nat n / 10 - 100 * of_nat (solved ?s) / (of_nat (total ?s) :: rat)\<bar> \<le> 1 / 20
                   \<and> (int n = roundedTenths (100 * of_nat (solved ?s) / of_nat (total ?s))
                        \<or> frac (10 * (100 * of_nat (solved ?s) / (of_nat (total ?s) :: rat))) = 1 / 2
                          \<and> int n = roundedTenths (100 * of_nat (solved ?s) / of_nat (total ?s)) - 1))"
  proof (cases "?t = 0")
    case True
    then show ?thesis
      by (simp add: completionRate_of_def)
  next
    case False
    then have pos: "0 < ?t" by simp
    define n where "n = nat \<lfloor>10 * js_mul (js_div (of_nat (?n ''Resolved'' + ?n ''Closed'')) (of_nat ?t)) 100 + 1 / 2\<rfloor>"
    define q :: rat where "q = 100 * of_nat (?n ''Resolved'' + ?n ''Closed'') / of_nat ?t"
    have "2 * \<bar>int n * int ?t - 1000 * int (?n ''Resolved'' + ?n ''Closed'')\<bar> \<le> int ?t"
      unfolding n_def by (rule tenths_near [OF pos le assms(3)])
    then have near: "\<bar>of_nat n / 10 - q\<bar> \<le> 1 / 20"
      unfolding q_def by (rule tenth_as_rational [OF pos])
    note tie = nearest_tenth [OF near]
    have shown: "completionRate ?s = Some (Text (decimal1 n))"
      using pos by (simp add: completionRate_of_def toFixed1_def n_def)
    have q: "100 * of_nat (solved ?s) / (of_nat (total ?s) :: rat) = q"
      by (simp add: q_def)
    have "completionRate ?s = Some (Text (decimal1 n)) \<and> readFixed1 (decimal1 n) = Some n
                   \<and> \<bar>of_nat n / 10 - q\<bar> \<le> 1 / 20
                   \<and> (int n = roundedTenths q \<or> frac (10 * q) = 1 / 2 \<and> int n = roundedTenths q - 1)"
      using shown near tie by (simp add: readFixed1_decimal1)
    then have ex: "\<exists>txt n. completionRate ?s = Some (Text txt) \<and> readFixed1 txt = Some n
                   \<and> \<bar>of_nat n / 10 - q\<bar> \<le> 1 / 20
                   \<and> (int n = roundedTenths q \<or> frac (10 * q) = 1 / 2 \<and> int n = roundedTenths q - 1)"
      by blast
    show ?thesis
      unfolding q if_not_P [OF False] by (rule ex)
  qed
  show ?thesis
    by (rule exI [of _ ?s]) (use r l sum rate in simp)
qed


lemma power_two_less: "(2::rat) powi m < 2 powi n \<Longrightarrow> m < n"
proof (rule ccontr)
  assume less: "(2::rat) powi m < 2 powi n" and "\<not> m < n"
  then have "n \<le> m" by simp
  then have "(2::rat) powi n \<le> 2 powi m"
    by (rule power_int_increasing) simp
  with less show False by simp
qed

lemma binade_unique:
  assumes "0 < x" and "2 powi k \<le> x" and "x < 2 powi (k + 1)"
  shows "binade x = k"
proof -
  have b: "2 powi (binade x) \<le> x" "x < 2 powi (binade x + 1)"
    using binade_bounds [OF assms(1)] by simp_all
  have "(2::rat) powi (binade x) < 2 powi (k + 1)"
    using b(1) assms(3) by (rule le_less_trans)
  then have "binade x < k + 1"
    by (rule power_two_less)
  moreover have "(2::rat) powi k < 2 powi (binade x + 1)"
    using assms(2) b(2) by (rule le_less_trans)
  then have "k < binade x + 1"
    by (rule power_two_less)
  ultimately show ?thesis
    by simp
qed

lemma floor_rat_numeral: "\<lfloor>(numeral a :: rat) / numeral b\<rfloor> = numeral a div numeral b"
  using floor_divide_of_int_eq [of "numeral a" "numeral b", where ?'a = rat] by simp

lemma fl_eval:
  assumes "0 < x" and "2 powi k \<le> x" and "x < 2 powi (k + 1)"
  shows "fl x = of_int (roundHalfEven (x * 2 powi (52 - k))) * 2 powi (k - 52)"
  using assms(1) by (simp add: fl_def binade_unique [OF assms])

lemma fl_2_of_3: "fl (2 / 3) = 6004799503160661 / 9007199254740992"
proof -
  have r: "roundHalfEven (18014398509481984 / 3) = 6004799503160661"
    by (simp add: roundHalfEven_def Let_def floor_rat_numeral)
  have "fl (2 / 3) = of_int (roundHalfEven (2 / 3 * 2 powi (52 - (-1)))) * 2 powi (-1 - 52)"
    by (rule fl_eval) simp_all
  then show ?thesis
    by (simp add: r power_int_minus)
qed

lemma fl_times_100: "fl (6004799503160661 / 9007199254740992 * 100) = 2345624805922133 / 35184372088832"
proof -
  have r: "roundHalfEven (150119987579016525 / 32) = 4691249611844266"
    by (simp add: roundHalfEven_def Let_def floor_rat_numeral)
  have "fl (6004799503160661 / 9007199254740992 * 100)
          = of_int (roundHalfEven (6004799503160661 / 9007199254740992 * 100 * 2 powi (52 - 6)))
            * 2 powi (6 - 52)"
    by (rule fl_eval) simp_all
  then show ?thesis
    by (simp add: r power_int_minus)
qed

lemma decimal_667: "decimal1 667 = ''66.7''"
  by code_simp

lemma toFixed_2_of_3: "toFixed1 (js_mul (js_div 2 3) 100) = ''66.7''"
proof -
  have v: "js_mul (js_div 2 3) 100 = 2345624805922133 / 35184372088832"
    by (simp only: js_div_def js_mul_def fl_2_of_3 fl_times_100)
  have h: "10 * (2345624805922133 / 35184372088832 :: rat) + 1 / 2
             = 46947680490531492 / 70368744177664"
    by simp
  have "nat \<lfloor>10 * (2345624805922133 / 35184372088832 :: rat) + 1 / 2\<rfloor> = 667"
    unfolding h floor_rat_numeral by simp
  then show ?thesis
    unfolding toFixed1_def v by (simp only: decimal_667)
qed

lemma rate_2_of_3: "completionRate_of (Suc (Suc (Suc 0))) (Suc 0) (Suc 0) = Text ''66.7''"
  by (simp add: completionRate_of_def toFixed_2_of_3)


theorem myStatistics_counts_and_rate_witness:
  "statusesValid statsDb \<and> castObjectId aliceId = Some aliceId
   \<and> r_body (myStatistics env1 statsDb aliceId) =
       Statistics \<lparr>total = 3, open = 1, inProgress = 0, resolved = 1, closed = 1, solved = 2,
                   ongoing = 1, completionRate = Some (Text ''66.7'')\<rparr>"
proof -
  have v: "statusesValid statsDb"
    by (simp add: statusesValid_def statsDb_def bugX_def bugY_def bugW_def)
  have u: "castObjectId aliceId = Some aliceId"
    by (simp add: id_defs fixture_defs)
  have t: "length (filter (\<lambda>i. author i = aliceId) (issues statsDb)) < 2 ^ 40"
    by (simp add: statsDb_def bugX_def bugY_def bugW_def)
  have ev: "r_body (myStatistics env1 statsDb aliceId) =
       Statistics \<lparr>total = 3, open = 1, inProgress = 0, resolved = 1, closed = 1, solved = 2,
                   ongoing = 1, completionRate = Some (Text ''66.7'')\<rparr>"
    unfolding myStatistics_ok [OF u]
    by (simp add: respond_def statsDb_def bugX_def bugY_def bugW_def aliceId_def bobId_def
        rate_2_of_3)
  from myStatistics_counts_and_rate [OF v u t, of env1] obtain s
    where "myStatistics env1 statsDb aliceId
             = respond 200 (Statistics s) statsDb (replicate 5 Q_Issue_countDocuments)"
    by blast
  then have "r_body (myStatistics env1 statsDb aliceId) = Statistics s"
    by (simp add: respond_def)
  with v u ev show ?thesis
    by simp
qed

subsection \<open>An exact tie\<close>

text \<open>
  23 solved issues of 80 are exactly 28.75 percent. In binary64 the quotient times 100
  is just below 28.75, and \<^verbatim>\<open>toFixed(1)\<close> gives "28.7": the nearer of the two
  decimals for the computed value, and one of the two nearest for the exact one.
  3 solved issues of 16 are exactly 18.75 percent, which binary64 computes exactly,
  and \<^verbatim>\<open>toFixed(1)\<close> gives "18.8".
\<close>

lemma fl_23_of_80: "fl (23 / 80) = 2589569785738035 / 9007199254740992"
proof -
  have r: "roundHalfEven (25895697857380352 / 5) = 5179139571476070"
    by (simp add: roundHalfEven_def Let_def floor_rat_numeral)
  have "fl (23 / 80) = of_int (roundHalfEven (23 / 80 * 2 powi (52 - (-2)))) * 2 powi (-2 - 52)"
    by (rule fl_eval) simp_all
  then show ?thesis
    by (simp add: r power_int_minus)
qed

lemma fl_23_of_80_times_100:
  "fl (2589569785738035 / 9007199254740992 * 100) = 8092405580431359 / 281474976710656"
proof -
  have r: "roundHalfEven (64739244643450875 / 8) = 8092405580431359"
    by (simp add: roundHalfEven_def Let_def floor_rat_numeral)
  have "fl (2589569785738035 / 9007199254740992 * 100)
          = of_int (roundHalfEven (2589569785738035 / 9007199254740992 * 100 * 2 powi (52 - 4)))
            * 2 powi (4 - 52)"
    by (rule fl_eval) simp_all
  then show ?thesis
    by (simp add: r power_int_minus)
qed

lemma decimal_287: "decimal1 287 = ''28.7''"
  by code_simp

lemma toFixed_23_of_80: "toFixed1 (js_mul (js_div 23 80) 100) = ''28.7''"
proof -
  have v: "js_mul (js_div 23 80) 100 = 8092405580431359 / 281474976710656"
    by (simp only: js_div_def js_mul_def fl_23_of_80 fl_23_of_80_times_100)
  have h: "10 * (8092405580431359 / 281474976710656 :: rat) + 1 / 2
             = 40532396646334459 / 140737488355328"
    by simp
  have "nat \<lfloor>10 * (8092405580431359 / 281474976710656 :: rat) + 1 / 2\<rfloor> = 287"
    unfolding h floor_rat_numeral by simp
  then show ?thesis
    unfolding toFixed1_def v by (simp only: decimal_287)
qed

lemma fl_3_of_16: "fl (3 / 16) = 3 / 16"
proof -
  have r: "roundHalfEven 6755399441055744 = 6755399441055744"
    by (simp add: roundHalfEven_def Let_def)
  have "fl (3 / 16) = of_int (roundHalfEven (3 / 16 * 2 powi (52 - (-3)))) * 2 powi (-3 - 52)"
    by (rule fl_eval) simp_all
  then show ?thesis
    by (simp add: r power_int_minus)
qed

lemma fl_3_of_16_times_100: "fl (3 / 16 * 100) = 75 / 4"
proof -
  have r: "roundHalfEven 5277655813324800 = 5277655813324800"
    by (simp add: roundHalfEven_def Let_def)
  have "fl (3 / 16 * 100) = of_int (roundHalfEven (3 / 16 * 100 * 2 powi (52 - 4))) * 2 powi (4 - 52)"
    by (rule fl_eval) simp_all
  then show ?thesis
    by (simp add: r power_int_minus)
qed

lemma decimal_188: "decimal1 188 = ''18.8''"
  by code_simp

lemma toFixed_3_of_16: "toFixed1 (js_mul (js_div 3 16) 100) = ''18.8''"
proof -
  have v: "js_mul (js_div 3 16) 100 = 75 / 4"
    by (simp only: js_div_def js_mul_def fl_3_of_16 fl_3_of_16_times_100)
  have "nat \<lfloor>10 * (75 / 4 :: rat) + 1 / 2\<rfloor> = 188"
    by simp
  then show ?thesis
    unfolding toFixed1_def v by (simp only: decimal_188)
qed

lemma count_numbered:
  "length (filter ((\<lambda>i. author i = a \<and> status i = s) \<circ> numbered b st) ns)
     = (if a = b \<and> s = st then length ns else 0)"
  "length (filter ((\<lambda>i. author i = a) \<circ> numbered b st) ns) = (if a = b then length ns else 0)"
  by (induction ns) (auto simp add: numbered_def)

lemma rate_23_of_80: "completionRate_of 80 11 12 = Text ''28.7''"
  by (simp add: completionRate_of_def toFixed_23_of_80)

lemma rate_3_of_16: "completionRate_of 16 0 3 = Text ''18.8''"
  by (simp add: completionRate_of_def toFixed_3_of_16)



lemma stats_tieDb_alice:
  "myStatistics env1 tieDb aliceId =
     respond 200
       (Statistics \<lparr>total = 80, open = 57, inProgress = 0, resolved = 11, closed = 12,
                     solved = 23, ongoing = 57, completionRate = Some (Text ''28.7'')\<rparr>)
       tieDb (replicate 5 Q_Issue_countDocuments)"
proof -
  have u: "castObjectId aliceId = Some aliceId"
    by (simp add: id_defs fixture_defs)
  have ne: "aliceId \<noteq> bobId"
    by (simp add: aliceId_def bobId_def)
  have i: "issues tieDb = map (numbered aliceId ''Closed'') [0..<12]
             @ map (numbered aliceId ''Resolved'') [12..<23]
             @ map (numbered aliceId ''Open'') [23..<80]
             @ map (numbered bobId ''Closed'') [80..<83]
             @ map (numbered bobId ''In Progress'') [83..<96]"
    by (simp add: tieDb_def del: upt_rec_numeral)
  show ?thesis
    unfolding myStatistics_ok [OF u] i
    by (simp add: count_numbered ne rate_23_of_80 del: upt_rec_numeral)
qed

lemma stats_tieDb_bob:
  "myStatistics env1 tieDb bobId =
     respond 200
       (Statistics \<lparr>total = 16, open = 0, inProgress = 13, resolved = 0, closed = 3,
                     solved = 3, ongoing = 13, completionRate = Some (Text ''18.8'')\<rparr>)
       tieDb (replicate 5 Q_Issue_countDocuments)"
proof -
  have u: "castObjectId bobId = Some bobId"
    by (simp add: id_defs fixture_defs)
  have ne: "bobId \<noteq> aliceId"
    by (simp add: aliceId_def bobId_def)
  have i: "issues tieDb = map (numbered aliceId ''Closed'') [0..<12]
             @ map (numbered aliceId ''Resolved'') [12..<23]
             @ map (numbered aliceId ''Open'') [23..<80]
             @ map (numbered bobId ''Closed'') [80..<83]
             @ map (numbered bobId ''In Progress'') [83..<96]"
    by (simp add: tieDb_def del: upt_rec_numeral)
  show ?thesis
    unfolding myStatistics_ok [OF u] i
    by (simp add: count_numbered ne rate_3_of_16 del: upt_rec_numeral)
qed

text \<open>
  The store of the example is one the routes can hold: its 96 ids are distinct, every
  status is of the enum, every issue has a description and an assignee.
\<close>

lemma upt_join:
  assumes "i \<le> j" and "j \<le> k"
  shows "[i..<j] @ [j..<k] = [i..<k]"
proof -
  have k: "j + (k - j) = k"
    using assms(2) by simp
  show ?thesis
    using upt_add_eq_append [OF assms(1), of "k - j"] unfolding k by (rule sym)
qed

lemma two_digits_inj:
  assumes "n < 100" and "m < 100"
    and "digit (n div 10) = digit (m div 10)" and "digit (n mod 10) = digit (m mod 10)"
  shows "n = m"
proof -
  have n: "n div 10 < 10" "n mod 10 < 10" and m: "m div 10 < 10" "m mod 10 < 10"
    using assms(1,2) by simp_all
  have "n div 10 = digitValue (digit (n div 10))"
    by (simp only: digit_props(2) [OF n(1)])
  also have "\<dots> = digitValue (digit (m div 10))"
    by (simp only: assms(3))
  also have "\<dots> = m div 10"
    by (simp only: digit_props(2) [OF m(1)])
  finally have d: "n div 10 = m div 10" .
  have "n mod 10 = digitValue (digit (n mod 10))"
    by (simp only: digit_props(2) [OF n(2)])
  also have "\<dots> = digitValue (digit (m mod 10))"
    by (simp only: assms(4))
  also have "\<dots> = m mod 10"
    by (simp only: digit_props(2) [OF m(2)])
  finally have r: "n mod 10 = m mod 10" .
  have "n = 10 * (n div 10) + n mod 10"
    by simp
  also have "\<dots> = 10 * (m div 10) + m mod 10"
    by (simp only: d r)
  also have "\<dots> = m"
    by simp
  finally show ?thesis .
qed

lemma tieDb_ids:
  "map i_id (issues tieDb)
     = map (\<lambda>n. ''64b0c0ffee000000000000'' @ [digit (n div 10), digit (n mod 10)]) [0..<96]"
proof -
  have "[0..<12] @ [12..<23] @ [23..<80] @ [80..<83] @ [83..<96] = [0..<96]"
    by (simp add: upt_join del: upt_rec_numeral)
  then have "map (\<lambda>n. ''64b0c0ffee000000000000'' @ [digit (n div 10), digit (n mod 10)]) [0..<96]
     = map (\<lambda>n. ''64b0c0ffee000000000000'' @ [digit (n div 10), digit (n mod 10)])
         ([0..<12] @ [12..<23] @ [23..<80] @ [80..<83] @ [83..<96])"
    by (simp only:)
  then show ?thesis
    by (simp add: tieDb_def numbered_def comp_def del: upt_rec_numeral)
qed

lemma tieDb_unique: "uniqueIds tieDb"
proof -
  have inj: "inj_on (\<lambda>n. ''64b0c0ffee000000000000'' @ [digit (n div 10), digit (n mod 10)]) (set [0..<96])"
  proof (rule inj_onI)
    fix x y :: nat
    assume "x \<in> set [0..<96]" and "y \<in> set [0..<96]"
    then have x: "x < 100" and y: "y < 100"
      by (simp_all only: set_upt atLeastLessThan_iff) linarith+
    assume "''64b0c0ffee000000000000'' @ [digit (x div 10), digit (x mod 10)]
          = ''64b0c0ffee000000000000'' @ [digit (y div 10), digit (y mod 10)]"
    then have "digit (x div 10) = digit (y div 10)" and "digit (x mod 10) = digit (y mod 10)"
      by simp_all
    with x y show "x = y"
      by (rule two_digits_inj)
  qed
  have "distinct (map i_id (issues tieDb))"
    unfolding tieDb_ids by (simp only: distinct_map distinct_upt inj simp_thms)
  moreover have "comments tieDb = []"
    by (simp add: tieDb_def del: upt_rec_numeral)
  ultimately show ?thesis
    by (simp add: uniqueIds_def)
qed


lemma tieDb_valid: "statusesValid tieDb \<and> storedInFull tieDb \<and> length (issues tieDb) = 96"
  by (auto simp add: statusesValid_def storedInFull_def tieDb_def numbered_def list_all_iff
      simp del: upt_rec_numeral)

text \<open>
  Claim C5, as the spec states it, fails. Alice has 80 issues, 23 of them solved:
  \<open>100 * 23 / 80\<close> is 28.75, midway between 28.7 and 28.8, which rounded to one
  decimal is 28.8 (288 tenths); the completion rate sent is the text "28.7". Bob has
  16 issues, 3 of them solved: \<open>100 * 3 / 16\<close> is 18.75, midway between 18.7 and
  18.8, and the rate sent is "18.8". A quotient midway between two decimals goes
  down in the first response and up in the second, so the rate is not the quotient
  rounded by a rule that sends such a quotient one way.
\<close>

theorem completionRate_is_not_the_rounded_quotient:
  "r_body (myStatistics env1 tieDb aliceId) =
     Statistics \<lparr>total = 80, open = 57, inProgress = 0, resolved = 11, closed = 12,
                   solved = 23, ongoing = 57, completionRate = Some (Text ''28.7'')\<rparr>
   \<and> (100 * 23 / 80 :: rat) = 287 / 10 + 1 / 20
   \<and> roundedTenths (100 * 23 / 80) = 288
   \<and> readFixed1 ''28.7'' = Some 287
   \<and> r_body (myStatistics env1 tieDb bobId) =
     Statistics \<lparr>total = 16, open = 0, inProgress = 13, resolved = 0, closed = 3,
                   solved = 3, ongoing = 13, completionRate = Some (Text ''18.8'')\<rparr>
   \<and> (100 * 3 / 16 :: rat) = 187 / 10 + 1 / 20
   \<and> readFixed1 ''18.8'' = Some 188"
proof -
  have a: "readFixed1 ''28.7'' = Some 287"
    using readFixed1_decimal1 [of 287] by (simp only: decimal_287)
  have b: "readFixed1 ''18.8'' = Some 188"
    using readFixed1_decimal1 [of 188] by (simp only: decimal_188)
  show ?thesis
    by (simp add: stats_tieDb_alice stats_tieDb_bob respond_def roundedTenths_def a b)
qed

end
